theory Spec2Isabelle
  imports Complex_Main "HOL-Library.Sublist"
begin

section \<open>JavaScript values used by the pipeline\<close>

text \<open>
  A JavaScript \<open>number\<close>: a finite value (kept exact, as a rational) or one of the
  three non-finite values. \<open>Number.isFinite\<close> is \<open>isFinite\<close>.
\<close>

datatype jsnum = Fin rat | NaN | PosInf | NegInf

fun isFinite :: "jsnum \<Rightarrow> bool" where
  "isFinite (Fin r) = True"
| "isFinite _ = False"

text \<open>
  \<open>Array.prototype.sort(cmp)\<close> is a stable sort. For a comparator that is a total
  preorder (all comparators of this development are differences of numeric keys) the
  result is the one stable sorted permutation, computed here by insertion: an element is
  placed before the first later element it does not exceed.
\<close>

fun sort_insert :: "('a \<Rightarrow> 'a \<Rightarrow> 'b::{zero,ord}) \<Rightarrow> 'a \<Rightarrow> 'a list \<Rightarrow> 'a list" where
  "sort_insert cmp x [] = [x]"
| "sort_insert cmp x (y # ys) = (if cmp x y \<le> 0 then x # y # ys else y # sort_insert cmp x ys)"

fun js_sort :: "('a \<Rightarrow> 'a \<Rightarrow> 'b::{zero,ord}) \<Rightarrow> 'a list \<Rightarrow> 'a list" where
  "js_sort cmp [] = []"
| "js_sort cmp (x # xs) = sort_insert cmp x (js_sort cmp xs)"

section \<open>Numbers in template strings\<close>

text \<open>
  \<open>`${n}`\<close> for an integer \<open>n\<close>: its decimal digits, with a leading minus sign for a
  negative one.
\<close>

definition digitChar :: "nat \<Rightarrow> char" where
  "digitChar d = ''0123456789'' ! (d mod 10)"

fun showNat :: "nat \<Rightarrow> string" where
  "showNat n = (if n < 10 then [digitChar n] else showNat (n div 10) @ [digitChar (n mod 10)])"

declare showNat.simps [simp del]

definition showInt :: "int \<Rightarrow> string" where
  "showInt i = (if i < 0 then CHR ''-'' # showNat (nat (- i)) else showNat (nat i))"

text \<open>\<open>xs.join(sep)\<close>.\<close>

fun joinWith :: "string \<Rightarrow> string list \<Rightarrow> string" where
  "joinWith sep [] = []"
| "joinWith sep [x] = x"
| "joinWith sep (x # y # ys) = x @ sep @ joinWith sep (y # ys)"

section \<open>FightSelector: \<open>pickFight\<close>\<close>

record Fight =
  fight_id :: int
  encounterID :: int
  fight_name :: string
  kill :: bool
  startTime :: int
  endTime :: int
  boss :: "int option"
  difficulty :: "int option"

record PickFightOptions =
  strategy :: string
  onlyKill :: bool
  opt_difficulty :: "int option"
  opt_reportCode :: string
  debugFightID :: "int option"

record SelectedFightMeta =
  sel_reportCode :: string
  sel_fightID :: int
  sel_encounterID :: int
  sel_name :: string
  sel_startTime :: int
  sel_endTime :: int
  sel_durationMs :: int
  sel_difficulty :: "int option"
  sel_kill :: bool
  sel_boss :: "int option"
  sel_reason :: string

text \<open>The exceptions \<open>pickFight\<close> throws, in the order of the source.\<close>

datatype pick_error =
    NoFightsInReport
  | FightIdNotFound int
  | NoFightsMatchedByBoss rat
  | NoKillForLastKill
  | NoKillForFirstKill
  | UndefinedFight
  | UnsupportedStrategy string

definition duration :: "Fight \<Rightarrow> int" where
  "duration fight = endTime fight - startTime fight"

definition withDifficultyPriority :: "Fight list \<Rightarrow> int option \<Rightarrow> Fight list" where
  "withDifficultyPriority fights d =
     (case d of
        None \<Rightarrow> fights
      | Some dv \<Rightarrow>
          (let preferred = filter (\<lambda>f. difficulty f = Some dv) fights
           in if length preferred > 0 then preferred else fights))"

text \<open>
  \<open>parseByBoss\<close>: the text after the prefix \<open>byBoss:\<close> goes through JavaScript's
  \<open>Number\<close>; the conversion of a string to a number is the parameter \<open>toNum\<close>.
\<close>

definition parseByBoss :: "(string \<Rightarrow> jsnum) \<Rightarrow> string \<Rightarrow> rat option" where
  "parseByBoss toNum s =
     (if \<not> prefix ''byBoss:'' s then None
      else (case toNum (drop 7 s) of Fin v \<Rightarrow> Some v | _ \<Rightarrow> None))"

definition toSelectedFight :: "string \<Rightarrow> Fight \<Rightarrow> string \<Rightarrow> SelectedFightMeta" where
  "toSelectedFight rc fight reason =
     \<lparr> sel_reportCode = rc,
       sel_fightID = fight_id fight,
       sel_encounterID = encounterID fight,
       sel_name = fight_name fight,
       sel_startTime = startTime fight,
       sel_endTime = endTime fight,
       sel_durationMs = duration fight,
       sel_difficulty = difficulty fight,
       sel_kill = kill fight,
       sel_boss = boss fight,
       sel_reason = reason \<rparr>"

text \<open>The comparators handed to \<open>sort\<close>.\<close>

definition byStartTime :: "Fight \<Rightarrow> Fight \<Rightarrow> int" where
  "byStartTime a b = startTime a - startTime b"

definition byDurationDesc :: "Fight \<Rightarrow> Fight \<Rightarrow> int" where
  "byDurationDesc a b = duration b - duration a"

definition numberOfBool :: "bool \<Rightarrow> int" where
  "numberOfBool b = (if b then 1 else 0)"

definition orZero :: "int option \<Rightarrow> int" where
  "orZero d = (case d of None \<Rightarrow> 0 | Some v \<Rightarrow> v)"

definition bestComparator :: "Fight \<Rightarrow> Fight \<Rightarrow> int" where
  "bestComparator a b =
     (let killScore = numberOfBool (kill b) - numberOfBool (kill a) in
      if killScore \<noteq> 0 then killScore
      else let diffScore = orZero (difficulty b) - orZero (difficulty a) in
      if diffScore \<noteq> 0 then diffScore
      else let durScore = duration b - duration a in
      if durScore \<noteq> 0 then durScore
      else startTime b - startTime a)"

text \<open>The three narrowing steps on the candidate list, then the strategy.\<close>

definition narrowOnlyKill :: "PickFightOptions \<Rightarrow> Fight list \<Rightarrow> Fight list" where
  "narrowOnlyKill options candidates =
     (if onlyKill options
      then (let kills = filter kill candidates
            in if length kills > 0 then kills else candidates)
      else candidates)"

definition narrowByBoss :: "rat option \<Rightarrow> Fight list \<Rightarrow> pick_error + Fight list" where
  "narrowByBoss byBoss candidates =
     (case byBoss of
        None \<Rightarrow> Inr candidates
      | Some v \<Rightarrow>
          (let bossFiltered =
                 filter (\<lambda>f. (case boss f of None \<Rightarrow> False | Some b \<Rightarrow> of_int b = v)
                             \<or> of_int (encounterID f) = v) candidates
           in if length bossFiltered = 0 then Inl (NoFightsMatchedByBoss v)
              else Inr bossFiltered))"

text \<open>
  \<open>xs[0]\<close> and \<open>xs[xs.length - 1]\<close> of an empty array are \<open>undefined\<close>, and
  \<open>toSelectedFight\<close> then throws on the first field read: \<open>UndefinedFight\<close>.
\<close>

definition selectFirst :: "string \<Rightarrow> Fight list \<Rightarrow> string \<Rightarrow> pick_error + SelectedFightMeta" where
  "selectFirst rc xs reason =
     (case xs of [] \<Rightarrow> Inl UndefinedFight | x # _ \<Rightarrow> Inr (toSelectedFight rc x reason))"

definition applyStrategy ::
  "PickFightOptions \<Rightarrow> rat option \<Rightarrow> Fight list \<Rightarrow> pick_error + SelectedFightMeta" where
  "applyStrategy options byBoss candidates =
     (if strategy options = ''lastKill'' then
        (let kills = js_sort byStartTime (filter kill candidates)
         in if length kills = 0 then Inl NoKillForLastKill
            else Inr (toSelectedFight (opt_reportCode options) (last kills) ''strategy=lastKill''))
      else if strategy options = ''firstKill'' then
        (let kills = js_sort byStartTime (filter kill candidates)
         in if length kills = 0 then Inl NoKillForFirstKill
            else Inr (toSelectedFight (opt_reportCode options) (hd kills) ''strategy=firstKill''))
      else if strategy options = ''longest'' then
        selectFirst (opt_reportCode options) (js_sort byDurationDesc candidates) ''strategy=longest''
      else if strategy options = ''best'' \<or> byBoss \<noteq> None then
        selectFirst (opt_reportCode options) (js_sort bestComparator candidates)
          (''strategy='' @ strategy options)
      else Inl (UnsupportedStrategy (strategy options)))"

definition pickFight ::
  "(string \<Rightarrow> jsnum) \<Rightarrow> Fight list \<Rightarrow> PickFightOptions \<Rightarrow> pick_error + SelectedFightMeta" where
  "pickFight toNum fights options =
     (if length fights = 0 then Inl NoFightsInReport
      else case debugFightID options of
        Some dbg \<Rightarrow>
          (case find (\<lambda>f. fight_id f = dbg) fights of
             None \<Rightarrow> Inl (FightIdNotFound dbg)
           | Some direct \<Rightarrow>
               Inr (toSelectedFight (opt_reportCode options) direct ''debug override (--fight-id)''))
      | None \<Rightarrow>
          (let byBoss = parseByBoss toNum (strategy options) in
           case narrowByBoss byBoss (narrowOnlyKill options fights) of
             Inl e \<Rightarrow> Inl e
           | Inr candidates \<Rightarrow>
               applyStrategy options byBoss (withDifficultyPriority candidates (opt_difficulty options))))"

text \<open>The fights of the repository's test \<open>pickFight.test.ts\<close>.\<close>

definition testFights :: "Fight list" where
  "testFights =
     [ \<lparr> fight_id = 1, encounterID = 100, fight_name = ''Boss A'', kill = False,
         startTime = 0, endTime = 120000, boss = Some 100, difficulty = Some 100 \<rparr>,
       \<lparr> fight_id = 2, encounterID = 100, fight_name = ''Boss A'', kill = True,
         startTime = 130000, endTime = 300000, boss = Some 100, difficulty = Some 100 \<rparr>,
       \<lparr> fight_id = 3, encounterID = 101, fight_name = ''Boss B'', kill = True,
         startTime = 310000, endTime = 520000, boss = Some 101, difficulty = Some 101 \<rparr> ]"

definition testOptions :: "string \<Rightarrow> PickFightOptions" where
  "testOptions s =
     \<lparr> strategy = s, onlyKill = True, opt_difficulty = None,
       opt_reportCode = ''ABC123'', debugFightID = None \<rparr>"

text \<open>
  The order of the specification, written out: kill status descending, then difficulty
  descending (an absent difficulty counts as 0), then duration descending, then start
  time descending. \<open>spec_ranksNotBelow f g\<close>: \<open>f\<close> is not ranked below \<open>g\<close>.
\<close>

definition spec_ranksNotBelow :: "Fight \<Rightarrow> Fight \<Rightarrow> bool" where
  "spec_ranksNotBelow f g =
     ((kill f \<and> \<not> kill g) \<or>
      (kill f = kill g \<and>
        (orZero (difficulty f) > orZero (difficulty g) \<or>
         (orZero (difficulty f) = orZero (difficulty g) \<and>
           (duration f > duration g \<or>
            (duration f = duration g \<and> startTime f \<ge> startTime g))))))"

text \<open>A report without a kill: the first fight of the test alone.\<close>

definition noKillFights :: "Fight list" where
  "noKillFights = [testFights ! 0]"

section \<open>Report master data and events\<close>

record Actor =
  actor_id :: int
  actor_gameID :: int
  actor_name :: string
  actor_type :: string
  subType :: "string option"
  petOwner :: "int option"

record AbilityRef =
  ab_gameID :: "int option"
  ab_guid :: "int option"
  ab_name :: "string option"

record CastEvent =
  timestamp :: int
  ev_type :: string
  sourceID :: "int option"
  targetID :: "int option"
  abilityGameID :: "int option"
  ability :: "AbilityRef option"

text \<open>\<open>ActorMap\<close>: the two \<open>Map\<close>s built by \<open>getReportActorMap\<close>.\<close>

record ActorMap =
  byId :: "int \<rightharpoonup> Actor"
  abilityByGameId :: "int \<rightharpoonup> string"

section \<open>BossTimelineBuilder\<close>

text \<open>The argument is \<open>actors.byId.get(id)\<close>: \<open>None\<close> is \<open>undefined\<close>.\<close>

definition isPlayer :: "Actor option \<Rightarrow> bool" where
  "isPlayer actor = (case actor of None \<Rightarrow> False | Some a \<Rightarrow> actor_type a = ''Player'')"

definition isPet :: "Actor option \<Rightarrow> bool" where
  "isPet actor =
     (case actor of
        None \<Rightarrow> False
      | Some a \<Rightarrow> actor_type a = ''Pet'' \<or> petOwner a \<noteq> None)"

definition isEnemyCandidate :: "Actor option \<Rightarrow> bool" where
  "isEnemyCandidate actor =
     (case actor of
        None \<Rightarrow> True
      | Some a \<Rightarrow> if isPlayer actor \<or> isPet actor then False else True)"

text \<open>
  \<open>counts\<close> is a \<open>Map<number, number>\<close>; its iteration order is the order in which
  the keys were first set, so it is an association list, and \<open>counts.set(k, (counts.get(k) ?? 0) + 1)\<close>
  is \<open>bumpCount\<close>: a known key keeps its place.
\<close>

fun bumpCount :: "int \<Rightarrow> (int \<times> nat) list \<Rightarrow> (int \<times> nat) list" where
  "bumpCount k [] = [(k, 1)]"
| "bumpCount k ((k', c) # rest) =
     (if k' = k then (k', c + 1) # rest else (k', c) # bumpCount k rest)"

fun countSources :: "ActorMap \<Rightarrow> CastEvent list \<Rightarrow> (int \<times> nat) list \<Rightarrow> (int \<times> nat) list" where
  "countSources actors [] counts = counts"
| "countSources actors (event # events) counts =
     (case sourceID event of
        None \<Rightarrow> countSources actors events counts
      | Some sid \<Rightarrow>
          if \<not> isEnemyCandidate (byId actors sid) then countSources actors events counts
          else countSources actors events (bumpCount sid counts))"

fun pickHighest :: "(int \<times> nat) list \<Rightarrow> (int \<times> nat) option \<Rightarrow> (int \<times> nat) option" where
  "pickHighest [] best = best"
| "pickHighest ((i, count) # rest) best =
     pickHighest rest
       (case best of
          None \<Rightarrow> Some (i, count)
        | Some (bi, bcount) \<Rightarrow> if count > bcount then Some (i, count) else best)"

definition inferBossActorId :: "CastEvent list \<Rightarrow> ActorMap \<Rightarrow> int option" where
  "inferBossActorId events actors =
     map_option fst (pickHighest (countSources actors events []) None)"

text \<open>
  The number of events of a source actor that boss inference counts, as the
  specification words it: the events whose source is that actor, for an actor that is
  neither a player nor a pet.
\<close>

definition spec_eventCount :: "ActorMap \<Rightarrow> CastEvent list \<Rightarrow> int \<Rightarrow> nat" where
  "spec_eventCount actors events i =
     (if isPlayer (byId actors i) \<or> isPet (byId actors i) then 0
      else length (filter (\<lambda>e. sourceID e = Some i) events))"

text \<open>Events for the examples: \<open>n\<close> cast events of source \<open>s\<close>.\<close>

definition castBy :: "int \<Rightarrow> int \<Rightarrow> CastEvent" where
  "castBy s t =
     \<lparr> timestamp = t, ev_type = ''cast'', sourceID = Some s, targetID = None,
       abilityGameID = Some 7, ability = None \<rparr>"

definition npcActor :: "int \<Rightarrow> string \<Rightarrow> Actor" where
  "npcActor i n =
     \<lparr> actor_id = i, actor_gameID = 0, actor_name = n, actor_type = ''NPC'',
       subType = None, petOwner = None \<rparr>"

definition playerActor :: "int \<Rightarrow> string \<Rightarrow> Actor" where
  "playerActor i n =
     \<lparr> actor_id = i, actor_gameID = 0, actor_name = n, actor_type = ''Player'',
       subType = None, petOwner = None \<rparr>"

text \<open>The count a key has in the association list, 0 for an absent key.\<close>

definition cntOf :: "(int \<times> nat) list \<Rightarrow> int \<Rightarrow> nat" where
  "cntOf cs i = (case map_of cs i of None \<Rightarrow> 0 | Some c \<Rightarrow> c)"

text \<open>
  The example of the specification: two actors that are neither players nor pets, with 5
  and 12 events, and a player.
\<close>

definition bossExampleActors :: ActorMap where
  "bossExampleActors =
     \<lparr> byId = [10 \<mapsto> npcActor 10 ''Add'', 20 \<mapsto> npcActor 20 ''Boss'', 1 \<mapsto> playerActor 1 ''Alice''],
       abilityByGameId = Map.empty \<rparr>"

definition bossExampleEvents :: "CastEvent list" where
  "bossExampleEvents =
     replicate 5 (castBy 10 0) @ [castBy 1 5] @ replicate 12 (castBy 20 10)"

text \<open>An example with a source actor (99) that the master data does not list.\<close>

definition unknownSourceActors :: ActorMap where
  "unknownSourceActors =
     \<lparr> byId = [1 \<mapsto> playerActor 1 ''Alice'', 10 \<mapsto> npcActor 10 ''Add''],
       abilityByGameId = Map.empty \<rparr>"

definition unknownSourceEvents :: "CastEvent list" where
  "unknownSourceEvents =
     [castBy 99 0, castBy 1 1, castBy 10 2, castBy 99 3, castBy 1 4, castBy 1 5]"

section \<open>Ability names: \<open>resolveAbility\<close>, the boss timeline and the player casts\<close>

text \<open>\<open>s.toLowerCase()\<close> on the ASCII letters; other bytes are kept.\<close>

definition toLowerChar :: "char \<Rightarrow> char" where
  "toLowerChar c =
     (case map_of (zip ''ABCDEFGHIJKLMNOPQRSTUVWXYZ'' ''abcdefghijklmnopqrstuvwxyz'') c of
        None \<Rightarrow> c
      | Some l \<Rightarrow> l)"

definition toLowerCase :: "string \<Rightarrow> string" where
  "toLowerCase s = map toLowerChar s"

definition isCastLike :: "CastEvent \<Rightarrow> bool" where
  "isCastLike event =
     (let t = toLowerCase (ev_type event) in t = ''cast'' \<or> t = ''begincast'')"

text \<open>
  \<open>event.abilityGameID ?? event.ability?.gameID ?? event.ability?.guid ?? -1\<close>.
\<close>

definition abilityIdOf :: "CastEvent \<Rightarrow> int" where
  "abilityIdOf event =
     (case abilityGameID event of
        Some i \<Rightarrow> i
      | None \<Rightarrow>
          (case ability event of
             None \<Rightarrow> - 1
           | Some a \<Rightarrow>
               (case ab_gameID a of
                  Some g \<Rightarrow> g
                | None \<Rightarrow> (case ab_guid a of Some g \<Rightarrow> g | None \<Rightarrow> - 1))))"

definition placeholderName :: "int \<Rightarrow> string" where
  "placeholderName abilityId = ''Ability#'' @ showInt abilityId"

text \<open>
  \<open>resolveAbility\<close> (the same function in \<open>bossTimeline.ts\<close> and \<open>playerCasts.ts\<close>).
  The optional \<open>extraAbilityById\<close> is a \<open>Map\<close>, which is truthy also when empty.
\<close>

definition resolveAbility ::
  "CastEvent \<Rightarrow> ActorMap \<Rightarrow> (int \<rightharpoonup> string) option \<Rightarrow> string \<times> int" where
  "resolveAbility event actors extraAbilityById =
     (let abilityId = abilityIdOf event in
      case extraAbilityById of
        Some extra \<Rightarrow>
          ((case extra abilityId of Some n \<Rightarrow> n | None \<Rightarrow> placeholderName abilityId), abilityId)
      | None \<Rightarrow>
          ((case (case ability event of None \<Rightarrow> None | Some a \<Rightarrow> ab_name a) of
              Some n \<Rightarrow> n
            | None \<Rightarrow>
                (case abilityByGameId actors abilityId of
                   Some n \<Rightarrow> n
                 | None \<Rightarrow> placeholderName abilityId)), abilityId))"

record TimelineEntry =
  tl_t :: rat
  tl_source :: string
  tl_ability :: string
  tl_abilityId :: int

record PlayerCastEntry =
  pc_t :: rat
  pc_source :: string
  pc_sourceId :: int
  pc_ability :: string
  pc_abilityId :: int

definition relativeSeconds :: "int \<Rightarrow> int \<Rightarrow> rat" where
  "relativeSeconds ts fightStartTime = of_int (ts - fightStartTime) / 1000"

definition actorLabel :: "Actor option \<Rightarrow> int \<Rightarrow> string" where
  "actorLabel actor i =
     (case actor of Some a \<Rightarrow> actor_name a | None \<Rightarrow> ''Actor#'' @ showInt i)"

definition byTimestamp :: "CastEvent \<Rightarrow> CastEvent \<Rightarrow> int" where
  "byTimestamp a b = timestamp a - timestamp b"

definition timelineEntry ::
  "ActorMap \<Rightarrow> int \<Rightarrow> (int \<rightharpoonup> string) option \<Rightarrow> string \<Rightarrow> CastEvent \<Rightarrow> TimelineEntry" where
  "timelineEntry actors fightStartTime extraAbilityById bossName event =
     (case resolveAbility event actors extraAbilityById of
        (abilityName, abilityId) \<Rightarrow>
          \<lparr> tl_t = relativeSeconds (timestamp event) fightStartTime,
            tl_source = bossName,
            tl_ability = abilityName,
            tl_abilityId = abilityId \<rparr>)"

definition buildBossTimeline ::
  "CastEvent list \<Rightarrow> ActorMap \<Rightarrow> int \<Rightarrow> (int \<rightharpoonup> string) option \<Rightarrow> TimelineEntry list" where
  "buildBossTimeline events actors fightStartTime extraAbilityById =
     (case inferBossActorId events actors of
        None \<Rightarrow> []
      | Some bossActorId \<Rightarrow>
          (let bossName = actorLabel (byId actors bossActorId) bossActorId;
               bossEvents = filter (\<lambda>event. sourceID event = Some bossActorId) events;
               castLike = filter isCastLike bossEvents;
               picked = (if length castLike > 0 then castLike else bossEvents)
           in map (timelineEntry actors fightStartTime extraAbilityById bossName)
                (js_sort byTimestamp picked)))"

text \<open>
  \<open>grouped\<close> is a \<open>Map<number, PlayerCastEntry[]>\<close> in insertion order;
  \<open>appendToGroup\<close> is \<open>list = grouped.get(k) ?? []; list.push(e); grouped.set(k, list)\<close>.
\<close>

fun appendToGroup :: "int \<Rightarrow> 'e \<Rightarrow> (int \<times> 'e list) list \<Rightarrow> (int \<times> 'e list) list" where
  "appendToGroup k e [] = [(k, [e])]"
| "appendToGroup k e ((k', es) # rest) =
     (if k' = k then (k', es @ [e]) # rest else (k', es) # appendToGroup k e rest)"

definition playerCastEntry ::
  "ActorMap \<Rightarrow> int \<Rightarrow> (int \<rightharpoonup> string) option \<Rightarrow> int \<Rightarrow> CastEvent \<Rightarrow> PlayerCastEntry" where
  "playerCastEntry actors fightStartTime extraAbilityById sid event =
     (case resolveAbility event actors extraAbilityById of
        (abilityName, abilityId) \<Rightarrow>
          \<lparr> pc_t = relativeSeconds (timestamp event) fightStartTime,
            pc_source = actorLabel (byId actors sid) sid,
            pc_sourceId = sid,
            pc_ability = abilityName,
            pc_abilityId = abilityId \<rparr>)"

fun groupPlayerCasts ::
  "ActorMap \<Rightarrow> int \<Rightarrow> (int \<rightharpoonup> string) option \<Rightarrow> CastEvent list \<Rightarrow>
   (int \<times> PlayerCastEntry list) list \<Rightarrow> (int \<times> PlayerCastEntry list) list" where
  "groupPlayerCasts actors fightStartTime extra [] grouped = grouped"
| "groupPlayerCasts actors fightStartTime extra (event # events) grouped =
     (case sourceID event of
        None \<Rightarrow> groupPlayerCasts actors fightStartTime extra events grouped
      | Some sid \<Rightarrow>
          if \<not> isPlayer (byId actors sid)
          then groupPlayerCasts actors fightStartTime extra events grouped
          else groupPlayerCasts actors fightStartTime extra events
                 (appendToGroup sid (playerCastEntry actors fightStartTime extra sid event) grouped))"

text \<open>
  The result object \<open>Record<string, PlayerCastEntry[]>\<close>, as the list of its properties in
  insertion order; \<open>setProperty\<close> is \<open>result[key] = entries\<close>.
\<close>

fun setProperty :: "string \<Rightarrow> 'v \<Rightarrow> (string \<times> 'v) list \<Rightarrow> (string \<times> 'v) list" where
  "setProperty k v [] = [(k, v)]"
| "setProperty k v ((k', v') # rest) =
     (if k' = k then (k', v) # rest else (k', v') # setProperty k v rest)"

definition byRelativeTime :: "PlayerCastEntry \<Rightarrow> PlayerCastEntry \<Rightarrow> rat" where
  "byRelativeTime a b = pc_t a - pc_t b"

text \<open>A group is never empty; were it, \<open>entries[0].source\<close> would throw.\<close>

fun emitGroups ::
  "(int \<times> PlayerCastEntry list) list \<Rightarrow> (string \<times> PlayerCastEntry list) list \<Rightarrow>
   (string \<times> PlayerCastEntry list) list" where
  "emitGroups [] result = result"
| "emitGroups ((sid, entries) # groups) result =
     (case js_sort byRelativeTime entries of
        [] \<Rightarrow> emitGroups groups result
      | first # others \<Rightarrow>
          emitGroups groups
            (setProperty (pc_source first @ ''#'' @ showInt (pc_sourceId first))
               (first # others) result))"

definition buildPlayerCasts ::
  "CastEvent list \<Rightarrow> ActorMap \<Rightarrow> int \<Rightarrow> (int \<rightharpoonup> string) option \<Rightarrow>
   (string \<times> PlayerCastEntry list) list" where
  "buildPlayerCasts events actors fightStartTime extraAbilityById =
     emitGroups (groupPlayerCasts actors fightStartTime extraAbilityById events []) []"

text \<open>
  \<open>runPipeline\<close>, from the two name maps on: \<open>finalAbilityById\<close> is a copy of the
  names resolved by XIVAPI (an empty map when the fallback is off) with every override
  set on top, and it is handed to both builders.
\<close>

definition finalAbilityById :: "(int \<rightharpoonup> string) \<Rightarrow> (int \<rightharpoonup> string) \<Rightarrow> (int \<rightharpoonup> string)" where
  "finalAbilityById xivApiResolved overrides = xivApiResolved ++ overrides"

definition runPipeline_emit ::
  "CastEvent list \<Rightarrow> CastEvent list \<Rightarrow> ActorMap \<Rightarrow> int \<Rightarrow>
   (int \<rightharpoonup> string) \<Rightarrow> (int \<rightharpoonup> string) \<Rightarrow>
   TimelineEntry list \<times> (string \<times> PlayerCastEntry list) list" where
  "runPipeline_emit castEvents bossEvents actorMap fightStartTime xivApiResolved overrides =
     (let final = finalAbilityById xivApiResolved overrides
      in (buildBossTimeline bossEvents actorMap fightStartTime (Some final),
          buildPlayerCasts castEvents actorMap fightStartTime (Some final)))"

text \<open>
  The priority of the specification: the override, else the name resolved by XIVAPI, else
  the name the log service supplied, else the placeholder.
\<close>

definition spec_displayName ::
  "(int \<rightharpoonup> string) \<Rightarrow> (int \<rightharpoonup> string) \<Rightarrow> string option \<Rightarrow> int \<Rightarrow> string" where
  "spec_displayName overrides xivApiResolved logServiceName abilityId =
     (case overrides abilityId of
        Some n \<Rightarrow> n
      | None \<Rightarrow>
          (case xivApiResolved abilityId of
             Some n \<Rightarrow> n
           | None \<Rightarrow>
               (case logServiceName of
                  Some n \<Rightarrow> n
                | None \<Rightarrow> placeholderName abilityId)))"

text \<open>The name of the log service for an event: the event's own, else the master data's.\<close>

definition logServiceName :: "CastEvent \<Rightarrow> ActorMap \<Rightarrow> string option" where
  "logServiceName event actors =
     (case (case ability event of None \<Rightarrow> None | Some a \<Rightarrow> ab_name a) of
        Some n \<Rightarrow> Some n
      | None \<Rightarrow> abilityByGameId actors (abilityIdOf event))"

text \<open>The priority the pipeline applies: the override, else XIVAPI's name, else the placeholder.\<close>

definition pipelineDisplayName ::
  "(int \<rightharpoonup> string) \<Rightarrow> (int \<rightharpoonup> string) \<Rightarrow> int \<Rightarrow> string" where
  "pipelineDisplayName overrides xivApiResolved abilityId =
     (case overrides abilityId of
        Some n \<Rightarrow> n
      | None \<Rightarrow>
          (case xivApiResolved abilityId of
             Some n \<Rightarrow> n
           | None \<Rightarrow> placeholderName abilityId))"

text \<open>An event of the boss with a name from the log service, and one of a player.\<close>

definition namedCast :: "int \<Rightarrow> int \<Rightarrow> int \<Rightarrow> string \<Rightarrow> CastEvent" where
  "namedCast s t g n =
     \<lparr> timestamp = t, ev_type = ''cast'', sourceID = Some s, targetID = None,
       abilityGameID = Some g,
       ability = Some \<lparr> ab_gameID = Some g, ab_guid = None, ab_name = Some n \<rparr> \<rparr>"

definition nameExampleActors :: ActorMap where
  "nameExampleActors =
     \<lparr> byId = [20 \<mapsto> npcActor 20 ''Boss'', 1 \<mapsto> playerActor 1 ''Alice''],
       abilityByGameId = [7 \<mapsto> ''Fireball''] \<rparr>"

section \<open>GraphQLClient: \<open>FFLogsGraphQLClient.request\<close>\<close>

text \<open>
  \<open>GraphQLResponse<T>\<close>: the parsed body, with \<open>errors\<close> reduced to the messages.
  A response as \<open>request\<close> reads it: the status line, the body as \<open>response.text()\<close>
  gives it and as \<open>response.json()\<close> gives it (\<open>Inl\<close>: the message of the exception
  \<open>json()\<close> throws).
\<close>

record 'a GraphQLResponse =
  gql_data :: "'a option"
  gql_errors :: "string list option"

record 'a HttpResponse =
  status :: nat
  statusText :: string
  body_text :: string
  body_json :: "string + 'a GraphQLResponse"

text \<open>
  What one attempt meets: \<open>getAccessToken\<close> or \<open>fetch\<close> threw (a transport failure,
  a timeout), or the upstream answered.
\<close>

datatype 'a attempt_outcome = Threw string | Responded "'a HttpResponse"

definition DEFAULT_RETRIES :: nat where
  "DEFAULT_RETRIES = 4"

definition RETRYABLE_STATUS :: "nat set" where
  "RETRYABLE_STATUS = {429, 500, 502, 503, 504}"

definition response_ok :: "'a HttpResponse \<Rightarrow> bool" where
  "response_ok r = (200 \<le> status r \<and> status r \<le> 299)"

text \<open>The argument of \<open>sleep\<close> in milliseconds.\<close>

definition backoffMs :: "nat \<Rightarrow> nat" where
  "backoffMs attempt = 250 * 2 ^ (attempt - 1)"

text \<open>
  The body of the \<open>try\<close> block for one attempt: it ends in \<open>continue\<close> after a sleep
  (\<open>SleepAndContinue\<close>), in \<open>return payload.data\<close>, or in a \<open>throw\<close>, which the
  \<open>catch\<close> of the same loop iteration receives.
\<close>

datatype 'a try_result = SleepAndContinue | Return 'a | Throw string

definition tryAttempt :: "nat \<Rightarrow> nat \<Rightarrow> 'a attempt_outcome \<Rightarrow> 'a try_result" where
  "tryAttempt maxRetries attempt outcome =
     (case outcome of
        Threw e \<Rightarrow> Throw e
      | Responded response \<Rightarrow>
          if status response \<in> RETRYABLE_STATUS \<and> attempt \<le> maxRetries then SleepAndContinue
          else if \<not> response_ok response then
            Throw (''GraphQL request failed: '' @ showNat (status response) @ '' '' @
                   statusText response @ '' '' @ body_text response)
          else (case body_json response of
                  Inl e \<Rightarrow> Throw e
                | Inr payload \<Rightarrow>
                    (case gql_errors payload of
                       Some (m # ms) \<Rightarrow> Throw (''GraphQL errors: '' @ joinWith '' | '' (m # ms))
                     | _ \<Rightarrow>
                        (case gql_data payload of
                           None \<Rightarrow> Throw ''GraphQL response returned no data.''
                         | Some d \<Rightarrow> Return d))))"

text \<open>
  The result of \<open>request\<close>: the data or the message of the error thrown, with the number
  of attempts made and the sleeps taken, in order.
\<close>

record 'a request_result =
  outcome :: "string + 'a"
  attempts :: nat
  sleeps :: "nat list"

text \<open>
  The loop \<open>for (;;)\<close> of \<open>request\<close>. The upstream is the list of what the successive
  attempts meet; \<open>attempt\<close> is the counter before its increment. \<open>None\<close>: the loop is
  still running when the list is used up.
\<close>

fun request_loop ::
  "nat \<Rightarrow> 'a attempt_outcome list \<Rightarrow> nat \<Rightarrow> nat list \<Rightarrow> 'a request_result option" where
  "request_loop maxRetries [] attempt0 slept = None"
| "request_loop maxRetries (out # rest) attempt0 slept =
     (let attempt = attempt0 + 1 in
      case tryAttempt maxRetries attempt out of
        SleepAndContinue \<Rightarrow> request_loop maxRetries rest attempt (slept @ [backoffMs attempt])
      | Return d \<Rightarrow> Some \<lparr> outcome = Inr d, attempts = attempt, sleeps = slept \<rparr>
      | Throw e \<Rightarrow>
          if attempt > maxRetries
          then Some \<lparr> outcome = Inl e, attempts = attempt, sleeps = slept \<rparr>
          else request_loop maxRetries rest attempt (slept @ [backoffMs attempt]))"

text \<open>\<open>config.maxRetries ?? DEFAULT_RETRIES\<close>, then the loop from \<open>attempt = 0\<close>.\<close>

definition request :: "nat option \<Rightarrow> 'a attempt_outcome list \<Rightarrow> 'a request_result option" where
  "request configMaxRetries upstream =
     request_loop (case configMaxRetries of None \<Rightarrow> DEFAULT_RETRIES | Some m \<Rightarrow> m) upstream 0 []"

text \<open>Responses for the examples.\<close>

definition statusResponse :: "nat \<Rightarrow> string \<Rightarrow> string \<Rightarrow> 'a attempt_outcome" where
  "statusResponse code reason text =
     Responded \<lparr> status = code, statusText = reason, body_text = text,
                 body_json = Inl ''Unexpected token'' \<rparr>"

definition dataResponse :: "'a \<Rightarrow> 'a attempt_outcome" where
  "dataResponse d =
     Responded \<lparr> status = 200, statusText = ''OK'', body_text = [],
                 body_json = Inr \<lparr> gql_data = Some d, gql_errors = None \<rparr> \<rparr>"

definition errorsResponse :: "string list \<Rightarrow> 'a attempt_outcome" where
  "errorsResponse ms =
     Responded \<lparr> status = 200, statusText = ''OK'', body_text = [],
                 body_json = Inr \<lparr> gql_data = None, gql_errors = Some ms \<rparr> \<rparr>"

section \<open>ReportResolver: \<open>getAllEvents\<close>\<close>

record EventsPage =
  page_data :: "CastEvent list option"
  nextPageTimestamp :: "int option"

record GetCastEventsParams =
  p_reportCode :: string
  p_fightID :: int
  p_startTime :: int
  p_endTime :: int
  p_limit :: "nat option"
  p_dataType :: "string option"
  p_translate :: "bool option"

text \<open>
  What one \<open>await requestWithTranslateFallback(...)\<close> of the loop gives: the request
  threw, or \<open>data.reportData.report?.events\<close> is null, or it is a page.
\<close>

datatype page_outcome = RequestFailed string | EventsNull | Page EventsPage

datatype events_error = RequestError string | EventsQueryNull string int

text \<open>
  The \<open>break\<close> condition \<open>!events.nextPageTimestamp || events.nextPageTimestamp <= cursor\<close>:
  \<open>!n\<close> holds for \<open>null\<close>, \<open>undefined\<close> and for the number 0.
\<close>

definition lastPage :: "EventsPage \<Rightarrow> int \<Rightarrow> bool" where
  "lastPage events cursor =
     (case nextPageTimestamp events of
        None \<Rightarrow> True
      | Some n \<Rightarrow> n = 0 \<or> n \<le> cursor)"

definition pageEvents :: "EventsPage \<Rightarrow> CastEvent list" where
  "pageEvents events = (case page_data events of None \<Rightarrow> [] | Some d \<Rightarrow> d)"

text \<open>
  The loop of \<open>getAllEvents\<close>; the upstream is the list of what the successive page
  requests give. \<open>None\<close>: the loop is still requesting when the list is used up.
\<close>

fun getAllEvents_loop ::
  "GetCastEventsParams \<Rightarrow> page_outcome list \<Rightarrow> int \<Rightarrow> CastEvent list \<Rightarrow>
   (events_error + CastEvent list) option" where
  "getAllEvents_loop params [] cursor all = None"
| "getAllEvents_loop params (r # rest) cursor all =
     (case r of
        RequestFailed e \<Rightarrow> Some (Inl (RequestError e))
      | EventsNull \<Rightarrow> Some (Inl (EventsQueryNull (p_reportCode params) (p_fightID params)))
      | Page events \<Rightarrow>
          (let all' = all @ pageEvents events in
           if lastPage events cursor then Some (Inr all')
           else (case nextPageTimestamp events of
                   None \<Rightarrow> Some (Inr all')
                 | Some n \<Rightarrow> getAllEvents_loop params rest n all')))"

definition getAllEvents ::
  "GetCastEventsParams \<Rightarrow> page_outcome list \<Rightarrow> (events_error + CastEvent list) option" where
  "getAllEvents params upstream = getAllEvents_loop params upstream (p_startTime params) []"

text \<open>
  The break condition as the specification words it: the page has no next cursor, or
  its next cursor is not strictly greater than the cursor of the request.
\<close>

definition spec_lastPage :: "EventsPage \<Rightarrow> int \<Rightarrow> bool" where
  "spec_lastPage events cursor =
     (case nextPageTimestamp events of
        None \<Rightarrow> True
      | Some n \<Rightarrow> \<not> n > cursor)"

text \<open>
  \<open>servedPages stop ps cursor\<close>: under the break condition \<open>stop\<close>, a loop that starts at
  \<open>cursor\<close> and is served the pages \<open>ps\<close> requests exactly these pages: it goes on after
  each page but the last, to that page's next cursor, and stops at the last.
\<close>

fun servedPages :: "(EventsPage \<Rightarrow> int \<Rightarrow> bool) \<Rightarrow> EventsPage list \<Rightarrow> int \<Rightarrow> bool" where
  "servedPages stop [] cursor = False"
| "servedPages stop [p] cursor = stop p cursor"
| "servedPages stop (p # q # ps) cursor =
     (\<not> stop p cursor \<and>
      (case nextPageTimestamp p of None \<Rightarrow> False | Some n \<Rightarrow> servedPages stop (q # ps) n))"

definition eventsParams :: "int \<Rightarrow> GetCastEventsParams" where
  "eventsParams start =
     \<lparr> p_reportCode = ''ABC123'', p_fightID = 3, p_startTime = start, p_endTime = 520000,
       p_limit = None, p_dataType = None, p_translate = None \<rparr>"

definition eventsPage :: "CastEvent list \<Rightarrow> int option \<Rightarrow> EventsPage" where
  "eventsPage d n = \<lparr> page_data = Some d, nextPageTimestamp = n \<rparr>"

section \<open>Loosely typed payloads\<close>

text \<open>
  A value of type \<open>any\<close>: \<open>undefined\<close>, or a JSON value. An object is the list of its
  properties in insertion order (\<open>Object.keys\<close> order); a lookup takes the first
  property of the name.
\<close>

datatype json =
    JUndefined
  | JNull
  | JBool bool
  | JNum jsnum
  | JStr string
  | JArr "json list"
  | JObj "(string \<times> json) list"

text \<open>
  The built-in conversions whose results depend on the number format of JavaScript are
  parameters of the model: \<open>Number(s)\<close> and \<open>String(n)\<close> for a string \<open>s\<close> and a
  number \<open>n\<close>, and \<open>JSON.parse\<close> (\<open>None\<close> when it throws).
\<close>

record js_builtins =
  strToNum :: "string \<Rightarrow> jsnum"
  numToStr :: "jsnum \<Rightarrow> string"
  jsonParse :: "string \<Rightarrow> json option"

text \<open>\<open>x?.k\<close>; the names read are never own properties of a string or an array.\<close>

definition getProp :: "json \<Rightarrow> string \<Rightarrow> json" where
  "getProp x k =
     (case x of
        JObj props \<Rightarrow> (case map_of props k of None \<Rightarrow> JUndefined | Some v \<Rightarrow> v)
      | _ \<Rightarrow> JUndefined)"

definition nullish :: "json \<Rightarrow> bool" where
  "nullish v = (v = JUndefined \<or> v = JNull)"

text \<open>\<open>a ?? b\<close>.\<close>

definition orElse :: "json \<Rightarrow> json \<Rightarrow> json" where
  "orElse a b = (if nullish a then b else a)"

definition truthy :: "json \<Rightarrow> bool" where
  "truthy v =
     (case v of
        JUndefined \<Rightarrow> False
      | JNull \<Rightarrow> False
      | JBool b \<Rightarrow> b
      | JNum n \<Rightarrow> (case n of Fin r \<Rightarrow> r \<noteq> 0 | NaN \<Rightarrow> False | _ \<Rightarrow> True)
      | JStr s \<Rightarrow> s \<noteq> []
      | JArr _ \<Rightarrow> True
      | JObj _ \<Rightarrow> True)"

text \<open>\<open>typeof v === 'object'\<close>, which holds for \<open>null\<close> and for arrays too.\<close>

definition typeofObject :: "json \<Rightarrow> bool" where
  "typeofObject v = (case v of JNull \<Rightarrow> True | JArr _ \<Rightarrow> True | JObj _ \<Rightarrow> True | _ \<Rightarrow> False)"

text \<open>\<open>typeof v === 'string' ? v : undefined\<close>.\<close>

definition ifString :: "json \<Rightarrow> json" where
  "ifString v = (case v of JStr s \<Rightarrow> JStr s | _ \<Rightarrow> JUndefined)"

text \<open>\<open>String(v)\<close> and \<open>Number(v)\<close>.\<close>

fun js_String :: "js_builtins \<Rightarrow> json \<Rightarrow> string" where
  "js_String B JUndefined = ''undefined''"
| "js_String B JNull = ''null''"
| "js_String B (JBool b) = (if b then ''true'' else ''false'')"
| "js_String B (JNum n) = numToStr B n"
| "js_String B (JStr s) = s"
| "js_String B (JArr xs) =
     joinWith '','' (map (\<lambda>x. if x = JUndefined \<or> x = JNull then [] else js_String B x) xs)"
| "js_String B (JObj props) = ''[object Object]''"

definition js_Number :: "js_builtins \<Rightarrow> json \<Rightarrow> jsnum" where
  "js_Number B v =
     (case v of
        JUndefined \<Rightarrow> NaN
      | JNull \<Rightarrow> Fin 0
      | JBool b \<Rightarrow> Fin (if b then 1 else 0)
      | JNum n \<Rightarrow> n
      | JStr s \<Rightarrow> strToNum B s
      | JArr xs \<Rightarrow> strToNum B (js_String B (JArr xs))
      | JObj props \<Rightarrow> NaN)"

text \<open>
  \<open>s.trim()\<close> on the ASCII white space, and the character class \<open>[A-Za-z0-9]\<close>.
\<close>

definition isSpace :: "char \<Rightarrow> bool" where
  "isSpace c = (c \<in> set [CHR '' '', CHR 0x09, CHR 0x0A, CHR 0x0B, CHR 0x0C, CHR 0x0D])"

definition trim :: "string \<Rightarrow> string" where
  "trim s = rev (dropWhile isSpace (rev (dropWhile isSpace s)))"

definition isAlnum :: "char \<Rightarrow> bool" where
  "isAlnum c =
     (c \<in> set ''ABCDEFGHIJKLMNOPQRSTUVWXYZabcdefghijklmnopqrstuvwxyz0123456789'')"

text \<open>\<open>/^[A-Za-z0-9]{8,}$/.test(s)\<close>.\<close>

definition isReportCode :: "string \<Rightarrow> bool" where
  "isReportCode s = (length s \<ge> 8 \<and> list_all isAlnum s)"

text \<open>
  \<open>s.match(/\/reports\/([A-Za-z0-9]+)/i)?.[1]\<close>: at the leftmost place where
  \<open>/reports/\<close> (in any letter case) is followed by a letter or digit, the longest run of
  letters and digits.
\<close>

definition reportsMatchAt :: "string \<Rightarrow> string option" where
  "reportsMatchAt s =
     (if toLowerCase (take 9 s) = ''/reports/'' \<and> takeWhile isAlnum (drop 9 s) \<noteq> []
      then Some (takeWhile isAlnum (drop 9 s))
      else None)"

fun matchReports :: "string \<Rightarrow> string option" where
  "matchReports [] = None"
| "matchReports (c # cs) =
     (case reportsMatchAt (c # cs) of
        Some m \<Rightarrow> Some m
      | None \<Rightarrow> matchReports cs)"

text \<open>\<open>hay.includes(needle)\<close>.\<close>

fun str_includes :: "string \<Rightarrow> string \<Rightarrow> bool" where
  "str_includes [] needle = (needle = [])"
| "str_includes (c # cs) needle = (prefix needle (c # cs) \<or> str_includes cs needle)"

section \<open>RankingsResolver\<close>

record RankingEntry =
  rank :: jsnum
  amount :: jsnum
  reportCode :: string
  fightID :: jsnum
  bestPercent :: "rat option"
  highestRdps :: "rat option"
  e_kill :: "bool option"
  fastestSec :: "rat option"
  medianRdps :: "rat option"
  characterName :: json
  serverName :: json
  region :: json
  className :: "string option"
  specName :: "string option"

record RankingsParams =
  rp_encounterID :: int
  rp_metric :: string
  rp_difficulty :: "int option"
  rp_pageSize :: "jsnum option"
  rp_rankIndex :: rat
  rp_region :: "string option"
  rp_server :: "string option"
  rp_className :: "string option"
  rp_specName :: "string option"
  rp_partition :: "int option"

subsection \<open>Reading a raw row\<close>

definition parseFightId :: "js_builtins \<Rightarrow> json \<Rightarrow> jsnum option" where
  "parseFightId B raw =
     (let v = orElse (orElse (orElse (orElse (getProp raw ''fightID'') (getProp raw ''fightId''))
                (getProp raw ''fight'')) (getProp raw ''encounterFightID''))
                (getProp raw ''encounterFightId'')
      in case v of
           JNum n \<Rightarrow> if isFinite n then Some n else None
         | JStr s \<Rightarrow> (let n = strToNum B s in if isFinite n then Some n else None)
         | _ \<Rightarrow> None)"

definition parseReportCode :: "json \<Rightarrow> string option" where
  "parseReportCode raw =
     (let report = getProp raw ''report'';
          nested =
            (if truthy report \<and> typeofObject report then
               (case orElse (orElse (orElse (getProp report ''code'') (getProp report ''reportCode''))
                       (getProp report ''id'')) (getProp report ''reportID'') of
                  JStr nestedCode \<Rightarrow>
                    if isReportCode (trim nestedCode) then Some (trim nestedCode) else None
                | _ \<Rightarrow> None)
             else None)
      in case nested of
           Some code \<Rightarrow> Some code
         | None \<Rightarrow>
             (let direct =
                    orElse (orElse (orElse (orElse (orElse (orElse (orElse
                      (getProp report ''code'')
                      (getProp raw ''reportCode''))
                      (getProp raw ''code''))
                      (getProp report ''reportCode''))
                      (ifString report))
                      (ifString (getProp raw ''reportURL'')))
                      (ifString (getProp raw ''reportUrl'')))
                      (ifString (getProp raw ''url''))
              in case direct of
                   JStr d \<Rightarrow>
                     (let s = trim d in
                      if s = [] then None
                      else (case matchReports s of
                              Some m \<Rightarrow> Some m
                            | None \<Rightarrow> if isReportCode s then Some s else None))
                 | _ \<Rightarrow> None))"

text \<open>
  \<open>readPathCI\<close>; a path \<open>'a.b'\<close> is given split at the dots, as \<open>[''a'', ''b'']\<close>.
\<close>

fun readPathCI :: "json \<Rightarrow> string list \<Rightarrow> json" where
  "readPathCI cur [] = cur"
| "readPathCI cur (rawPart # parts) =
     (if \<not> truthy cur \<or> \<not> typeofObject cur then JUndefined
      else (case cur of
              JObj props \<Rightarrow>
                (case map_of props rawPart of
                   Some v \<Rightarrow> readPathCI v parts
                 | None \<Rightarrow>
                     (case find (\<lambda>k. toLowerCase k = toLowerCase rawPart) (map fst props) of
                        None \<Rightarrow> JUndefined
                      | Some key \<Rightarrow>
                          if key = [] then JUndefined else readPathCI (getProp cur key) parts))
            | _ \<Rightarrow> JUndefined))"

text \<open>\<open>v.replace(/,/g, '')\<close>.\<close>

definition removeCommas :: "string \<Rightarrow> string" where
  "removeCommas s = filter (\<lambda>c. c \<noteq> CHR '','') s"

fun pickNumber :: "js_builtins \<Rightarrow> json \<Rightarrow> string list list \<Rightarrow> rat option" where
  "pickNumber B obj [] = None"
| "pickNumber B obj (p # paths) =
     (case readPathCI obj p of
        JNum n \<Rightarrow> (case n of Fin r \<Rightarrow> Some r | _ \<Rightarrow> pickNumber B obj paths)
      | JStr s \<Rightarrow>
          (case strToNum B (trim (removeCommas s)) of
             Fin r \<Rightarrow> Some r
           | _ \<Rightarrow> pickNumber B obj paths)
      | _ \<Rightarrow> pickNumber B obj paths)"

fun pickBoolean :: "json \<Rightarrow> string list list \<Rightarrow> bool option" where
  "pickBoolean obj [] = None"
| "pickBoolean obj (p # paths) =
     (case readPathCI obj p of
        JBool b \<Rightarrow> Some b
      | JNum n \<Rightarrow> Some (n \<noteq> Fin 0)
      | JStr v \<Rightarrow>
          (let s = toLowerCase (trim v) in
           if s = ''true'' \<or> s = ''1'' \<or> s = ''yes'' then Some True
           else if s = ''false'' \<or> s = ''0'' \<or> s = ''no'' then Some False
           else pickBoolean obj paths)
      | _ \<Rightarrow> pickBoolean obj paths)"

definition toSeconds :: "rat option \<Rightarrow> rat option" where
  "toSeconds v =
     (case v of
        None \<Rightarrow> None
      | Some r \<Rightarrow> if r > 10000 then Some (r / 1000) else Some r)"

definition parseBracketData :: "js_builtins \<Rightarrow> json \<Rightarrow> json" where
  "parseBracketData B raw =
     (let bd = getProp raw ''bracketData'' in
      if \<not> truthy bd then JUndefined
      else (case bd of
              JStr s \<Rightarrow> (case jsonParse B s of None \<Rightarrow> JUndefined | Some v \<Rightarrow> v)
            | _ \<Rightarrow> bd))"

text \<open>\<open>a ?? b\<close> on optional numbers and booleans.\<close>

definition orOpt :: "'a option \<Rightarrow> 'a option \<Rightarrow> 'a option" where
  "orOpt a b = (case a of None \<Rightarrow> b | Some x \<Rightarrow> Some x)"

record MetricFields =
  m_bestPercent :: "rat option"
  m_highestRdps :: "rat option"
  m_kill :: bool
  m_fastestSec :: "rat option"
  m_medianRdps :: "rat option"

definition metricFields :: "js_builtins \<Rightarrow> json \<Rightarrow> MetricFields" where
  "metricFields B raw =
     (let bd = parseBracketData B raw in
      \<lparr> m_bestPercent =
          orOpt (pickNumber B raw [[''rankPercent''], [''percentile''], [''bestPercent'']])
                (pickNumber B bd [[''rankPercent''], [''percentile''], [''bestPercent''],
                                  [''historicalPercent'']]),
        m_highestRdps =
          orOpt (pickNumber B raw [[''rDPS''], [''rdps''], [''amount'']])
                (pickNumber B bd [[''rDPS'', ''max''], [''rdps'', ''max''], [''rDPS''], [''rdps''],
                                  [''max'']]),
        m_kill =
          (case orOpt (pickBoolean raw [[''kill''], [''isKill''], [''success'']])
                      (pickBoolean bd [[''kill''], [''isKill''], [''success'']]) of
             None \<Rightarrow> True
           | Some b \<Rightarrow> b),
        m_fastestSec =
          toSeconds
            (orOpt (pickNumber B raw [[''fastest''], [''duration'']])
                   (pickNumber B bd [[''fastest''], [''duration'', ''min''],
                                     [''duration'', ''fastest''], [''minDuration'']])),
        m_medianRdps =
          orOpt (pickNumber B raw [[''medianRdps''], [''median'']])
                (pickNumber B bd [[''rDPS'', ''median''], [''rdps'', ''median''], [''rDPS'', ''avg''],
                                  [''rdps'', ''avg''], [''median'']]) \<rparr>)"

text \<open>\<open>c ? String(c) : d ? String(d) : undefined\<close>.\<close>

definition stringOfFirstTruthy :: "js_builtins \<Rightarrow> json \<Rightarrow> json \<Rightarrow> string option" where
  "stringOfFirstTruthy B c d =
     (if truthy c then Some (js_String B c)
      else if truthy d then Some (js_String B d)
      else None)"

text \<open>
  The object literal of a ranking entry, which \<open>normalizeRanking\<close> and the repair loop
  of \<open>resolveRankingRows\<close> both write out, field by field the same.
\<close>

definition rankingEntry :: "js_builtins \<Rightarrow> json \<Rightarrow> string \<Rightarrow> jsnum \<Rightarrow> RankingEntry" where
  "rankingEntry B raw code fid =
     (let m = metricFields B raw;
          character = getProp raw ''character'';
          server = getProp character ''server''
      in \<lparr> rank = js_Number B (orElse (getProp raw ''rank'') (JNum (Fin 0))),
           amount = js_Number B (orElse (getProp raw ''amount'') (JNum (Fin 0))),
           reportCode = code,
           fightID = fid,
           bestPercent = m_bestPercent m,
           highestRdps = m_highestRdps m,
           e_kill = Some (m_kill m),
           fastestSec = m_fastestSec m,
           medianRdps = m_medianRdps m,
           characterName = orElse (getProp character ''name'') (getProp raw ''name''),
           serverName = orElse (getProp server ''name'') (getProp raw ''server''),
           region = getProp (getProp server ''region'') ''slug'',
           className = stringOfFirstTruthy B (getProp character ''classID'') (getProp raw ''class''),
           specName = stringOfFirstTruthy B (getProp character ''spec'') (getProp raw ''spec'') \<rparr>)"

definition normalizeRanking :: "js_builtins \<Rightarrow> json \<Rightarrow> RankingEntry option" where
  "normalizeRanking B raw =
     (case parseReportCode raw of
        None \<Rightarrow> None
      | Some code \<Rightarrow>
          if code = [] then None
          else (case parseFightId B raw of
                  None \<Rightarrow> None
                | Some fid \<Rightarrow> Some (rankingEntry B raw code fid)))"

text \<open>
  A ranking entry as the object \<open>normalizeRanking\<close> returned, to hand it to
  \<open>normalizeRanking\<close> again: its fourteen properties in the order of the literal.
\<close>

definition optNum :: "rat option \<Rightarrow> json" where
  "optNum v = (case v of None \<Rightarrow> JUndefined | Some r \<Rightarrow> JNum (Fin r))"

definition optStr :: "string option \<Rightarrow> json" where
  "optStr v = (case v of None \<Rightarrow> JUndefined | Some s \<Rightarrow> JStr s)"

definition optBool :: "bool option \<Rightarrow> json" where
  "optBool v = (case v of None \<Rightarrow> JUndefined | Some b \<Rightarrow> JBool b)"

definition entryObject :: "RankingEntry \<Rightarrow> json" where
  "entryObject e =
     JObj [(''rank'', JNum (rank e)),
           (''amount'', JNum (amount e)),
           (''reportCode'', JStr (reportCode e)),
           (''fightID'', JNum (fightID e)),
           (''bestPercent'', optNum (bestPercent e)),
           (''highestRdps'', optNum (highestRdps e)),
           (''kill'', optBool (e_kill e)),
           (''fastestSec'', optNum (fastestSec e)),
           (''medianRdps'', optNum (medianRdps e)),
           (''characterName'', characterName e),
           (''serverName'', serverName e),
           (''region'', region e),
           (''className'', optStr (className e)),
           (''specName'', optStr (specName e))]"

text \<open>
  Rows for the examples: one with a nested report object, one with a report URL whose
  code is short; the entries \<open>normalizeRanking\<close> makes of them. No conversion of the
  number format is needed for them.
\<close>

definition noBuiltins :: js_builtins where
  "noBuiltins = \<lparr> strToNum = (\<lambda>s. NaN), numToStr = (\<lambda>n. []), jsonParse = (\<lambda>s. None) \<rparr>"

definition rawRow :: json where
  "rawRow = JObj [(''name'', JStr ''Alice''), (''class'', JStr ''Samurai''), (''spec'', JStr ''Samurai''),
                  (''rank'', JNum (Fin 1)), (''amount'', JNum (Fin 1200)), (''rDPS'', JNum (Fin 1500)),
                  (''duration'', JNum (Fin 480000)), (''fightID'', JNum (Fin 7)),
                  (''report'', JObj [(''code'', JStr ''aBcD1234efGH5678'')])]"

definition rawRowEntry :: RankingEntry where
  "rawRowEntry =
     \<lparr> rank = Fin 1, amount = Fin 1200, reportCode = ''aBcD1234efGH5678'', fightID = Fin 7,
       bestPercent = None, highestRdps = Some 1500, e_kill = Some True, fastestSec = Some 480,
       medianRdps = None, characterName = JStr ''Alice'', serverName = JUndefined,
       region = JUndefined, className = Some ''Samurai'', specName = Some ''Samurai'' \<rparr>"

definition rawUrlRow :: json where
  "rawUrlRow = JObj [(''reportURL'', JStr ''https://www.fflogs.com/reports/abc12''),
                     (''fightID'', JNum (Fin 3))]"

definition rawUrlRowEntry :: RankingEntry where
  "rawUrlRowEntry =
     \<lparr> rank = Fin 0, amount = Fin 0, reportCode = ''abc12'', fightID = Fin 3,
       bestPercent = None, highestRdps = None, e_kill = Some True, fastestSec = None,
       medianRdps = None, characterName = JUndefined, serverName = JUndefined,
       region = JUndefined, className = None, specName = None \<rparr>"

subsection \<open>Repair of rows without a fight id\<close>

text \<open>
  \<open>pickFightIdFromReport\<close>. \<open>bestScore\<close> starts at \<open>+Infinity\<close> (\<open>None\<close>), which every
  score is below.
\<close>

definition scoreStep ::
  "rat \<Rightarrow> rat option \<Rightarrow> Fight \<times> rat option \<Rightarrow> Fight \<Rightarrow> Fight \<times> rat option" where
  "scoreStep targetStart targetDuration acc f =
     (let ds = \<bar>of_int (startTime f) - targetStart\<bar>;
          fd = endTime f - startTime f;
          dd = (case targetDuration of None \<Rightarrow> 0 | Some d \<Rightarrow> \<bar>of_int fd - d\<bar>);
          score = ds + dd
      in if (case snd acc of None \<Rightarrow> True | Some bestScore \<Rightarrow> score < bestScore)
         then (f, Some score) else acc)"

definition pickFightIdFromReport ::
  "Fight list \<Rightarrow> int \<Rightarrow> jsnum option \<Rightarrow> jsnum option \<Rightarrow> int option" where
  "pickFightIdFromReport fights enc start dur =
     (let candidates = filter (\<lambda>f. encounterID f = enc) fights;
          pool = (if length candidates > 0 then candidates else fights)
      in case pool of
           [] \<Rightarrow> None
         | first # others \<Rightarrow>
             (case start of
                Some (Fin targetStart) \<Rightarrow>
                  (let targetDuration = (case dur of Some (Fin d) \<Rightarrow> Some d | _ \<Rightarrow> None)
                   in Some (fight_id (fst (foldl (scoreStep targetStart targetDuration)
                                                 (first, None) pool))))
              | _ \<Rightarrow>
                  (case find kill pool of
                     Some f \<Rightarrow> Some (fight_id f)
                   | None \<Rightarrow> Some (fight_id first))))"

text \<open>\<open>typeof v === 'number' ? v : undefined\<close>.\<close>

definition ifNumber :: "json \<Rightarrow> jsnum option" where
  "ifNumber v = (case v of JNum n \<Rightarrow> Some n | _ \<Rightarrow> None)"

text \<open>
  \<open>resolveRankingRows\<close>. The first loop normalizes each row, and queues the rows that
  have a report code but no usable pair. The fight lists of the queued reports are then
  fetched, each distinct code once, an inaccessible report being ignored:
  \<open>fetchFights code\<close> is the fight list \<open>getReportFights\<close> gives for \<open>code\<close>, \<open>None\<close>
  when it throws. The second loop infers the fight of each queued row.
\<close>

fun firstPass ::
  "js_builtins \<Rightarrow> json list \<Rightarrow> RankingEntry list \<Rightarrow> (json \<times> string) list \<Rightarrow>
   RankingEntry list \<times> (json \<times> string) list" where
  "firstPass B [] entries unresolved = (entries, unresolved)"
| "firstPass B (row # rows) entries unresolved =
     (case normalizeRanking B row of
        Some normalized \<Rightarrow> firstPass B rows (entries @ [normalized]) unresolved
      | None \<Rightarrow>
          (case parseReportCode row of
             None \<Rightarrow> firstPass B rows entries unresolved
           | Some code \<Rightarrow>
               if code = [] then firstPass B rows entries unresolved
               else firstPass B rows entries (unresolved @ [(row, code)])))"

definition repairRow ::
  "js_builtins \<Rightarrow> (string \<Rightarrow> Fight list option) \<Rightarrow> int \<Rightarrow> json \<Rightarrow> string \<Rightarrow>
   RankingEntry option" where
  "repairRow B fetchFights enc row code =
     (case fetchFights code of
        None \<Rightarrow> None
      | Some fights \<Rightarrow>
          (case pickFightIdFromReport fights enc
                  (ifNumber (getProp row ''startTime'')) (ifNumber (getProp row ''duration'')) of
             None \<Rightarrow> None
           | Some inferredFightId \<Rightarrow>
               Some (rankingEntry B row code (Fin (of_int inferredFightId)))))"

fun secondPass ::
  "js_builtins \<Rightarrow> (string \<Rightarrow> Fight list option) \<Rightarrow> int \<Rightarrow> (json \<times> string) list \<Rightarrow>
   RankingEntry list \<Rightarrow> RankingEntry list" where
  "secondPass B fetchFights enc [] entries = entries"
| "secondPass B fetchFights enc ((row, code) # items) entries =
     (case repairRow B fetchFights enc row code of
        None \<Rightarrow> secondPass B fetchFights enc items entries
      | Some entry \<Rightarrow> secondPass B fetchFights enc items (entries @ [entry]))"

definition resolveRankingRows ::
  "js_builtins \<Rightarrow> (string \<Rightarrow> Fight list option) \<Rightarrow> RankingsParams \<Rightarrow> json list \<Rightarrow>
   RankingEntry list" where
  "resolveRankingRows B fetchFights params rows =
     (case firstPass B rows [] [] of
        (entries, unresolved) \<Rightarrow>
          if length unresolved = 0 then entries
          else secondPass B fetchFights (rp_encounterID params) unresolved entries)"

subsection \<open>Filtering and ordering\<close>

definition jobAliases :: "(string \<times> string) list" where
  "jobAliases =
     [(''pld'', ''paladin''), (''war'', ''warrior''), (''drk'', ''darkknight''),
      (''gnb'', ''gunbreaker''), (''whm'', ''whitemage''), (''sch'', ''scholar''),
      (''ast'', ''astrologian''), (''sge'', ''sage''), (''mnk'', ''monk''), (''drg'', ''dragoon''),
      (''nin'', ''ninja''), (''sam'', ''samurai''), (''rpr'', ''reaper''), (''vpr'', ''viper''),
      (''brd'', ''bard''), (''mch'', ''machinist''), (''dnc'', ''dancer''), (''blm'', ''blackmage''),
      (''smn'', ''summoner''), (''rdm'', ''redmage''), (''pct'', ''pictomancer'')]"

definition canonicalToClassId :: "(string \<times> string) list" where
  "canonicalToClassId =
     [(''paladin'', ''19''), (''warrior'', ''21''), (''darkknight'', ''32''),
      (''gunbreaker'', ''37''), (''whitemage'', ''24''), (''scholar'', ''28''),
      (''astrologian'', ''33''), (''sage'', ''40''), (''monk'', ''20''), (''dragoon'', ''22''),
      (''ninja'', ''30''), (''samurai'', ''34''), (''reaper'', ''39''), (''viper'', ''41''),
      (''bard'', ''23''), (''machinist'', ''31''), (''dancer'', ''38''), (''blackmage'', ''25''),
      (''summoner'', ''27''), (''redmage'', ''35''), (''pictomancer'', ''42'')]"

text \<open>\<open>s.toLowerCase().replace(/[^a-z0-9]/g, '')\<close>.\<close>

definition normalizeJob :: "string \<Rightarrow> string" where
  "normalizeJob s =
     filter (\<lambda>c. c \<in> set ''abcdefghijklmnopqrstuvwxyz0123456789'') (toLowerCase s)"

text \<open>
  \<open>matchesJobFilter\<close>. The tables are plain objects, so the one lower-case name that
  \<open>Object.prototype\<close> has, \<open>constructor\<close>, reads as a function: it is truthy, equals no
  string, and its text is in no normalized string.
\<close>

definition matchesJobFilter :: "RankingEntry \<Rightarrow> string option \<Rightarrow> bool" where
  "matchesJobFilter entry job =
     (let qRaw = normalizeJob (trim (case job of None \<Rightarrow> [] | Some j \<Rightarrow> j)) in
      if qRaw = ''constructor'' then False
      else
        (let q = (case map_of jobAliases qRaw of None \<Rightarrow> qRaw | Some a \<Rightarrow> a) in
         if q = [] then True
         else
           (let c = normalizeJob (case className entry of None \<Rightarrow> [] | Some x \<Rightarrow> x);
                s = normalizeJob (case specName entry of None \<Rightarrow> [] | Some x \<Rightarrow> x);
                targetClassId = (if q = ''constructor'' then None else map_of canonicalToClassId q)
            in c = q \<or> s = q \<or> str_includes c q \<or> str_includes s q \<or>
               (case targetClassId of None \<Rightarrow> False | Some t \<Rightarrow> c = t))))"

definition scoreForSort :: "RankingEntry \<Rightarrow> rat" where
  "scoreForSort entry =
     (case highestRdps entry of
        Some h \<Rightarrow> h
      | None \<Rightarrow> (case amount entry of Fin a \<Rightarrow> a | _ \<Rightarrow> 0))"

text \<open>
  The comparator of \<open>normalizeAndSortRankings\<close>; a rank that is not finite counts as
  \<open>+Infinity\<close>, and only the sign of the result matters to \<open>sort\<close>.
\<close>

definition rankingComparator :: "RankingEntry \<Rightarrow> RankingEntry \<Rightarrow> rat" where
  "rankingComparator a b =
     (let ra = (case rank a of Fin r \<Rightarrow> Some r | _ \<Rightarrow> None);
          rb = (case rank b of Fin r \<Rightarrow> Some r | _ \<Rightarrow> None)
      in if ra \<noteq> rb then
           (case (ra, rb) of
              (Some x, Some y) \<Rightarrow> x - y
            | (None, _) \<Rightarrow> 1
            | (_, None) \<Rightarrow> - 1)
         else
           (let sa = scoreForSort a; sb = scoreForSort b in
            if sa \<noteq> sb then sb - sa
            else
              (let pa = (case bestPercent a of Some p \<Rightarrow> p | None \<Rightarrow> - 1);
                   pb = (case bestPercent b of Some p \<Rightarrow> p | None \<Rightarrow> - 1)
               in if pa \<noteq> pb then pb - pa else 0)))"

definition normalizeAndSortRankings :: "RankingEntry list \<Rightarrow> RankingsParams \<Rightarrow> RankingEntry list" where
  "normalizeAndSortRankings entries params =
     js_sort rankingComparator
       (filter (\<lambda>e. matchesJobFilter e
                       (case rp_className params of Some c \<Rightarrow> Some c | None \<Rightarrow> rp_specName params))
          entries)"

subsection \<open>The two returns of \<open>getRankings\<close>\<close>

record RankingsFilters =
  f_region :: "string option"
  f_server :: "string option"
  f_className :: "string option"
  f_specName :: "string option"
  f_partition :: "int option"

record RankingsResult =
  rr_encounterID :: int
  rr_metric :: string
  rr_difficulty :: "int option"
  rr_pageSize :: rat
  rr_rankIndex :: rat
  rr_filters :: RankingsFilters
  rankings :: "RankingEntry list"

datatype rankings_error =
    RankIndexOutOfRange rat nat
  | RankingsNotFoundForJobFilter
  | RankingsNotFound
  | NoRankingsMatchedJobFilter
  | NoUsableRankingEntries

definition safePageSize :: "RankingsParams \<Rightarrow> rat" where
  "safePageSize params =
     (case rp_pageSize params of
        Some (Fin p) \<Rightarrow> max 1 (min 100 p)
      | _ \<Rightarrow> 10)"

text \<open>\<open>xs.slice(0, n)\<close> for \<open>n \<ge> 1\<close>: the end index is \<open>n\<close> truncated to an integer.\<close>

definition sliceTo :: "rat \<Rightarrow> 'a list \<Rightarrow> 'a list" where
  "sliceTo n xs = take (nat \<lfloor>n\<rfloor>) xs"

definition rankIndexOutside :: "RankingsParams \<Rightarrow> 'a list \<Rightarrow> bool" where
  "rankIndexOutside params xs = (rp_rankIndex params < 0 \<or> rp_rankIndex params \<ge> of_nat (length xs))"

definition rankingsResult :: "RankingsParams \<Rightarrow> RankingEntry list \<Rightarrow> RankingsResult" where
  "rankingsResult params limited =
     \<lparr> rr_encounterID = rp_encounterID params,
       rr_metric = rp_metric params,
       rr_difficulty = rp_difficulty params,
       rr_pageSize = safePageSize params,
       rr_rankIndex = rp_rankIndex params,
       rr_filters = \<lparr> f_region = rp_region params, f_server = rp_server params,
                      f_className = rp_className params, f_specName = rp_specName params,
                      f_partition = rp_partition params \<rparr>,
       rankings = limited \<rparr>"

definition jobFilterGiven :: "RankingsParams \<Rightarrow> bool" where
  "jobFilterGiven params =
     ((case rp_className params of Some c \<Rightarrow> c \<noteq> [] | None \<Rightarrow> False) \<or>
      (case rp_specName params of Some s \<Rightarrow> s \<noteq> [] | None \<Rightarrow> False))"

text \<open>
  The end of \<open>getRankings\<close> on the raw rows \<open>rankingsRaw\<close> that the queries and the
  paging collected (a non-empty list).
\<close>

definition getRankings_finish ::
  "js_builtins \<Rightarrow> (string \<Rightarrow> Fight list option) \<Rightarrow> RankingsParams \<Rightarrow> json list \<Rightarrow>
   rankings_error + RankingsResult" where
  "getRankings_finish B fetchFights params rankingsRaw =
     (let rankings = normalizeAndSortRankings (resolveRankingRows B fetchFights params rankingsRaw) params in
      if length rankings = 0 then
        (if jobFilterGiven params then Inl NoRankingsMatchedJobFilter else Inl NoUsableRankingEntries)
      else if rankIndexOutside params rankings
      then Inl (RankIndexOutOfRange (rp_rankIndex params) (length rankings))
      else
        (let limited = sliceTo (safePageSize params) rankings in
         if rankIndexOutside params limited
         then Inl (RankIndexOutOfRange (rp_rankIndex params) (length limited))
         else Inr (rankingsResult params limited)))"

text \<open>
  The return inside the fallback for a payload that reports an invalid difficulty or
  size, on the rows \<open>relaxedRows\<close> of the relaxed queries (a non-empty list); with no
  usable entry the function goes on to throw \<open>RankingsNotFound\<close>.
\<close>

definition getRankings_finishRelaxed ::
  "js_builtins \<Rightarrow> (string \<Rightarrow> Fight list option) \<Rightarrow> RankingsParams \<Rightarrow> json list \<Rightarrow>
   rankings_error + RankingsResult" where
  "getRankings_finishRelaxed B fetchFights params relaxedRows =
     (let relaxedRankings = resolveRankingRows B fetchFights params relaxedRows in
      if length relaxedRankings > 0 then
        (if rankIndexOutside params relaxedRankings
         then Inl (RankIndexOutOfRange (rp_rankIndex params) (length relaxedRankings))
         else
           (let relaxedSorted = normalizeAndSortRankings relaxedRankings params in
            if length relaxedSorted = 0 then Inl RankingsNotFoundForJobFilter
            else if rankIndexOutside params relaxedSorted
            then Inl (RankIndexOutOfRange (rp_rankIndex params) (length relaxedSorted))
            else
              (let limited = sliceTo (safePageSize params) relaxedSorted in
               if rankIndexOutside params limited
               then Inl (RankIndexOutOfRange (rp_rankIndex params) (length limited))
               else Inr (rankingsResult params limited))))
      else Inl RankingsNotFound)"

text \<open>
  An example: a row that normalizes, a row whose fight id is inferred from the fight list
  of its report, a row of an inaccessible report and a row without a report code.
\<close>

definition repairableRow :: json where
  "repairableRow =
     JObj [(''name'', JStr ''Bob''), (''rank'', JNum (Fin 2)), (''amount'', JNum (Fin 1100)),
           (''report'', JObj [(''code'', JStr ''ZyXw9876vUtS5432''), (''fightID'', JNum (Fin 4))])]"

definition privateRow :: json where
  "privateRow =
     JObj [(''name'', JStr ''Carol''), (''rank'', JNum (Fin 3)),
           (''report'', JObj [(''code'', JStr ''PrIvAtE000000001'')])]"

definition codelessRow :: json where
  "codelessRow = JObj [(''name'', JStr ''Dave''), (''rank'', JNum (Fin 4)), (''fightID'', JNum (Fin 9))]"

definition exampleFetch :: "string \<Rightarrow> Fight list option" where
  "exampleFetch code = (if code = ''ZyXw9876vUtS5432'' then Some testFights else None)"

definition exampleParams :: RankingsParams where
  "exampleParams =
     \<lparr> rp_encounterID = 101, rp_metric = ''rdps'', rp_difficulty = Some 101,
       rp_pageSize = Some (Fin 10), rp_rankIndex = 0, rp_region = None, rp_server = None,
       rp_className = None, rp_specName = None, rp_partition = None \<rparr>"


text \<open>
  What the specification asks of a returned entry: \<open>spec_rowYields B fetchFights enc row e\<close>
  holds when \<open>e\<close> is what direct parsing of \<open>row\<close> yields, or, direct parsing yielding no
  entry, what the repair of \<open>row\<close> from the fight list of its report yields.
\<close>

definition spec_rowYields ::
  "js_builtins \<Rightarrow> (string \<Rightarrow> Fight list option) \<Rightarrow> int \<Rightarrow> json \<Rightarrow> RankingEntry \<Rightarrow> bool" where
  "spec_rowYields B fetchFights enc row e =
     (case normalizeRanking B row of
        Some normalized \<Rightarrow> normalized = e
      | None \<Rightarrow>
          (case parseReportCode row of
             None \<Rightarrow> False
           | Some code \<Rightarrow> code \<noteq> [] \<and> repairRow B fetchFights enc row code = Some e))"

definition exampleRows :: "json list" where
  "exampleRows = [rawRow, repairableRow, privateRow, codelessRow]"

text \<open>The entry that the repair of \<open>repairableRow\<close> gives: fight 3 is the kill of encounter 101.\<close>

definition repairedEntry :: RankingEntry where
  "repairedEntry =
     \<lparr> rank = Fin 2, amount = Fin 1100, reportCode = ''ZyXw9876vUtS5432'', fightID = Fin 3,
       bestPercent = None, highestRdps = Some 1100, e_kill = Some True, fastestSec = None,
       medianRdps = None, characterName = JStr ''Bob'', serverName = JUndefined,
       region = JUndefined, className = None, specName = None \<rparr>"

section \<open>Verified properties\<close>

subsection \<open>The stable sort\<close>

lemma set_sort_insert: "set (sort_insert cmp x ys) = insert x (set ys)"
  by (induction ys) auto

lemma set_js_sort: "set (js_sort cmp xs) = set xs"
  by (induction xs) (auto simp: set_sort_insert)

lemma length_sort_insert: "length (sort_insert cmp x ys) = Suc (length ys)"
  by (induction ys) auto

lemma length_js_sort: "length (js_sort cmp xs) = length xs"
  by (induction xs) (auto simp: length_sort_insert)

lemma js_sort_Nil_iff: "js_sort cmp xs = [] \<longleftrightarrow> xs = []"
  using length_js_sort [of cmp xs] by (cases xs) auto

text \<open>
  For a comparator that is total and transitive, the first element of the sorted list is
  not above any element of the input.
\<close>

lemma js_sort_hd_min:
  assumes tot: "\<And>a b. cmp a b \<le> 0 \<or> cmp b a \<le> 0"
    and tr: "\<And>a b c. cmp a b \<le> 0 \<Longrightarrow> cmp b c \<le> 0 \<Longrightarrow> cmp a c \<le> 0"
  shows "js_sort cmp xs = h # t \<Longrightarrow> g \<in> set xs \<Longrightarrow> cmp h g \<le> 0"
proof (induction xs arbitrary: h t g)
  case Nil
  then show ?case by simp
next
  case (Cons x xs)
  have refl: "cmp x x \<le> 0" using tot [of x x] by simp
  from Cons.prems(2) have g: "g = x \<or> g \<in> set xs" by simp
  show ?case
  proof (cases "js_sort cmp xs")
    case Nil
    then have "xs = []" by (simp add: js_sort_Nil_iff)
    with Cons.prems Nil refl show ?thesis by simp
  next
    case (Cons y ys)
    note ys = this
    have min_y: "g \<in> set xs \<Longrightarrow> cmp y g \<le> 0"
      by (rule Cons.IH [OF ys])
    show ?thesis
    proof (cases "cmp x y \<le> 0")
      case True
      with Cons.prems(1) ys have h: "h = x" by simp
      from g show ?thesis
      proof
        assume "g = x" with h refl show ?thesis by simp
      next
        assume "g \<in> set xs"
        then have "cmp y g \<le> 0" by (rule min_y)
        with True have "cmp x g \<le> 0" by (rule tr)
        with h show ?thesis by simp
      qed
    next
      case False
      with Cons.prems(1) ys have h: "h = y" by simp
      from False tot [of x y] have yx: "cmp y x \<le> 0" by simp
      from g show ?thesis
      proof
        assume "g = x" with h yx show ?thesis by simp
      next
        assume "g \<in> set xs"
        then have "cmp y g \<le> 0" by (rule min_y)
        with h show ?thesis by simp
      qed
    qed
  qed
qed

subsection \<open>\<open>pickFight\<close>\<close>

lemma bestComparator_total: "bestComparator a b \<le> 0 \<or> bestComparator b a \<le> 0"
  by (auto simp: bestComparator_def Let_def numberOfBool_def split: if_splits)

lemma bestComparator_iff: "bestComparator f g \<le> 0 \<longleftrightarrow> spec_ranksNotBelow f g"
  by (auto simp: bestComparator_def spec_ranksNotBelow_def Let_def numberOfBool_def split: if_splits)

lemma spec_ranksNotBelow_trans:
  "spec_ranksNotBelow a b \<Longrightarrow> spec_ranksNotBelow b c \<Longrightarrow> spec_ranksNotBelow a c"
  unfolding spec_ranksNotBelow_def
  by (cases "kill a"; cases "kill b"; cases "kill c"; simp; linarith)

lemma bestComparator_trans:
  "bestComparator a b \<le> 0 \<Longrightarrow> bestComparator b c \<le> 0 \<Longrightarrow> bestComparator a c \<le> 0"
  unfolding bestComparator_iff by (rule spec_ranksNotBelow_trans)

lemma narrowOnlyKill_kills:
  "onlyKill options \<Longrightarrow> \<exists>f\<in>set fights. kill f \<Longrightarrow>
   f \<in> set (narrowOnlyKill options fights) \<Longrightarrow> kill f"
  by (auto simp: narrowOnlyKill_def Let_def filter_empty_conv split: if_splits)

lemma narrowOnlyKill_nonempty: "fights \<noteq> [] \<Longrightarrow> narrowOnlyKill options fights \<noteq> []"
  by (auto simp: narrowOnlyKill_def Let_def)

lemma narrowByBoss_subset: "narrowByBoss b c = Inr c' \<Longrightarrow> set c' \<subseteq> set c"
  by (auto simp: narrowByBoss_def Let_def split: option.splits if_splits)

lemma withDifficultyPriority_subset: "set (withDifficultyPriority c d) \<subseteq> set c"
  by (auto simp: withDifficultyPriority_def Let_def split: option.splits)

lemma withDifficultyPriority_nonempty: "c \<noteq> [] \<Longrightarrow> withDifficultyPriority c d \<noteq> []"
  by (auto simp: withDifficultyPriority_def Let_def split: option.splits)

lemma selectFirst_mem:
  "selectFirst rc xs r = Inr sel \<Longrightarrow> \<exists>f\<in>set xs. sel = toSelectedFight rc f r"
  by (auto simp: selectFirst_def split: list.splits)

text \<open>Whatever the strategy, the fight selected is one of the candidates.\<close>

lemma applyStrategy_mem:
  assumes "applyStrategy options b c = Inr sel"
  shows "\<exists>f\<in>set c. \<exists>r. sel = toSelectedFight (opt_reportCode options) f r"
proof -
  let ?k = "js_sort byStartTime (filter kill c)"
  have k: "?k \<noteq> [] \<Longrightarrow> last ?k \<in> set c \<and> hd ?k \<in> set c"
    using last_in_set [of ?k] hd_in_set [of ?k] by (auto simp: set_js_sort)
  from assms k show ?thesis
    unfolding applyStrategy_def Let_def
    by (auto split: if_splits dest!: selectFirst_mem simp: set_js_sort)
qed

lemma sel_kill_toSelectedFight: "sel_kill (toSelectedFight rc f r) = kill f"
  by (simp add: toSelectedFight_def)

lemma pickFight_test_best:
  "pickFight toNum testFights (testOptions ''best'') =
     Inr (toSelectedFight ''ABC123'' (testFights ! 2) ''strategy=best'')"
  by (simp add: pickFight_def testFights_def testOptions_def parseByBoss_def narrowOnlyKill_def
      narrowByBoss_def withDifficultyPriority_def applyStrategy_def selectFirst_def
      bestComparator_def numberOfBool_def orZero_def duration_def)

lemma pickFight_test_lastKill:
  "pickFight toNum testFights (testOptions ''lastKill'') =
     Inr (toSelectedFight ''ABC123'' (testFights ! 2) ''strategy=lastKill'')"
  by (simp add: pickFight_def testFights_def testOptions_def parseByBoss_def narrowOnlyKill_def
      narrowByBoss_def withDifficultyPriority_def applyStrategy_def byStartTime_def)

lemma testFights_third: "sel_fightID (toSelectedFight rc (testFights ! 2) r) = 3"
  by (simp add: testFights_def toSelectedFight_def)

lemma narrowOnlyKill_no_kill:
  "\<not> (\<exists>f\<in>set fights. kill f) \<Longrightarrow> narrowOnlyKill options fights = fights"
  by (auto simp: narrowOnlyKill_def Let_def filter_empty_conv)

text \<open>The three fights of the specification's example, whatever their other fields.\<close>

lemma pickFight_three_best:
  assumes "\<not> kill f1" "kill f2" "kill f3"
    and "difficulty f2 = Some 100" "difficulty f3 = Some 101"
    and "strategy options = ''best''" "onlyKill options"
    and "opt_difficulty options = None" "debugFightID options = None"
  shows "pickFight toNum [f1, f2, f3] options =
           Inr (toSelectedFight (opt_reportCode options) f3 ''strategy=best'')"
  using assms
  by (simp add: pickFight_def parseByBoss_def narrowOnlyKill_def narrowByBoss_def
      withDifficultyPriority_def applyStrategy_def selectFirst_def bestComparator_def
      numberOfBool_def orZero_def)

lemma pickFight_three_lastKill:
  assumes "\<not> kill f1" "kill f2" "kill f3"
    and "startTime f2 < startTime f3"
    and "strategy options = ''lastKill''" "onlyKill options"
    and "opt_difficulty options = None" "debugFightID options = None"
  shows "pickFight toNum [f1, f2, f3] options =
           Inr (toSelectedFight (opt_reportCode options) f3 ''strategy=lastKill'')"
  using assms
  by (simp add: pickFight_def parseByBoss_def narrowOnlyKill_def narrowByBoss_def
      withDifficultyPriority_def applyStrategy_def byStartTime_def)

text \<open>For a total and transitive comparator the result of the sort is sorted.\<close>

lemma sorted_sort_insert:
  assumes tot: "\<And>a b. cmp a b \<le> 0 \<or> cmp b a \<le> 0"
    and tr: "\<And>a b c. cmp a b \<le> 0 \<Longrightarrow> cmp b c \<le> 0 \<Longrightarrow> cmp a c \<le> 0"
  shows "sorted_wrt (\<lambda>a b. cmp a b \<le> 0) ys \<Longrightarrow>
         sorted_wrt (\<lambda>a b. cmp a b \<le> 0) (sort_insert cmp x ys)"
proof (induction ys)
  case Nil
  then show ?case by simp
next
  case (Cons y ys)
  note prems = Cons.prems and IH = Cons.IH
  show ?case
  proof (cases "cmp x y \<le> 0")
    case True
    have "cmp x z \<le> 0" if "z \<in> set ys" for z
    proof -
      from prems that have "cmp y z \<le> 0" by simp
      with True show ?thesis by (rule tr)
    qed
    with True prems show ?thesis by simp
  next
    case False
    with tot [of x y] have yx: "cmp y x \<le> 0" by simp
    from prems have "sorted_wrt (\<lambda>a b. cmp a b \<le> 0) ys" by simp
    then have "sorted_wrt (\<lambda>a b. cmp a b \<le> 0) (sort_insert cmp x ys)" by (rule IH)
    moreover from prems yx have "\<forall>z\<in>set (sort_insert cmp x ys). cmp y z \<le> 0"
      by (simp add: set_sort_insert)
    ultimately show ?thesis using False by simp
  qed
qed

lemma sorted_js_sort:
  assumes tot: "\<And>a b. cmp a b \<le> 0 \<or> cmp b a \<le> 0"
    and tr: "\<And>a b c. cmp a b \<le> 0 \<Longrightarrow> cmp b c \<le> 0 \<Longrightarrow> cmp a c \<le> 0"
  shows "sorted_wrt (\<lambda>a b. cmp a b \<le> 0) (js_sort cmp xs)"
proof (induction xs)
  case Nil
  then show ?case by simp
next
  case (Cons x xs)
  from sorted_sort_insert [of cmp "js_sort cmp xs" x, OF tot tr Cons.IH]
  show ?case by simp
qed

lemma js_sort_last_max:
  assumes tot: "\<And>a b. cmp a b \<le> 0 \<or> cmp b a \<le> 0"
    and tr: "\<And>a b c. cmp a b \<le> 0 \<Longrightarrow> cmp b c \<le> 0 \<Longrightarrow> cmp a c \<le> 0"
    and g: "g \<in> set xs"
  shows "cmp g (last (js_sort cmp xs)) \<le> 0"
proof -
  let ?zs = "js_sort cmp xs"
  from g have ne: "?zs \<noteq> []" by (auto simp: js_sort_Nil_iff)
  then have split: "?zs = butlast ?zs @ [last ?zs]" by simp
  have "sorted_wrt (\<lambda>a b. cmp a b \<le> 0) ?zs" by (rule sorted_js_sort [OF tot tr])
  with split have "sorted_wrt (\<lambda>a b. cmp a b \<le> 0) (butlast ?zs @ [last ?zs])" by simp
  then have bl: "\<forall>z\<in>set (butlast ?zs). cmp z (last ?zs) \<le> 0"
    by (simp add: sorted_wrt_append)
  from g have "g \<in> set ?zs" by (simp add: set_js_sort)
  with split have "g \<in> set (butlast ?zs) \<or> g = last ?zs"
    by (metis Un_iff empty_iff empty_set insert_iff list.simps(15) set_append)
  then show ?thesis
  proof
    assume "g \<in> set (butlast ?zs)" with bl show ?thesis by blast
  next
    assume "g = last ?zs" with tot [of g g] show ?thesis by simp
  qed
qed

lemma pickFight_lastKill_latest:
  assumes s: "strategy options = ''lastKill''" and d: "debugFightID options = None"
    and p: "pickFight toNum fights options = Inr sel"
  shows "\<exists>f\<in>set (withDifficultyPriority (narrowOnlyKill options fights) (opt_difficulty options)).
           kill f \<and> sel = toSelectedFight (opt_reportCode options) f ''strategy=lastKill'' \<and>
           (\<forall>g\<in>set (withDifficultyPriority (narrowOnlyKill options fights) (opt_difficulty options)).
              kill g \<longrightarrow> startTime g \<le> startTime f)"
proof -
  let ?c = "withDifficultyPriority (narrowOnlyKill options fights) (opt_difficulty options)"
  let ?k = "js_sort byStartTime (filter kill ?c)"
  have b: "parseByBoss toNum (strategy options) = None" using s by (simp add: parseByBoss_def)
  from p have ne: "fights \<noteq> []" by (auto simp: pickFight_def)
  from p ne d b s have k: "?k \<noteq> []"
    and sel: "sel = toSelectedFight (opt_reportCode options) (last ?k) ''strategy=lastKill''"
    by (auto simp: pickFight_def narrowByBoss_def applyStrategy_def Let_def split: if_splits)
  from k have "last ?k \<in> set ?k" by simp
  then have mem: "last ?k \<in> set ?c" and kl: "kill (last ?k)" by (simp_all add: set_js_sort)
  have "startTime g \<le> startTime (last ?k)" if "g \<in> set ?c" "kill g" for g
  proof -
    from that have "g \<in> set (filter kill ?c)" by simp
    then have "byStartTime g (last ?k) \<le> 0"
      by (rule js_sort_last_max [rotated 2]) (auto simp: byStartTime_def)
    then show ?thesis by (simp add: byStartTime_def)
  qed
  with mem kl sel show ?thesis by blast
qed

text \<open>
  Claim C6. The kill narrowing never produces an empty candidate list from a non-empty
  fight list: without a kill it leaves the list as it is. With \<open>onlyKill\<close> set and at
  least one kill in the list it leaves exactly kills, and then, with no override fight
  id, every fight that \<open>pickFight\<close> returns (under any strategy, difficulty and \<open>byBoss\<close>
  filter) is a kill.
\<close>

theorem pickFight_onlyKill_returns_kill:
  "(fights \<noteq> [] \<longrightarrow> narrowOnlyKill options fights \<noteq> []) \<and>
   (\<not> (\<exists>f\<in>set fights. kill f) \<longrightarrow> narrowOnlyKill options fights = fights) \<and>
   (onlyKill options \<and> (\<exists>f\<in>set fights. kill f) \<longrightarrow>
      narrowOnlyKill options fights \<noteq> [] \<and>
      (\<forall>f\<in>set (narrowOnlyKill options fights). kill f)) \<and>
   (onlyKill options \<and> debugFightID options = None \<and> (\<exists>f\<in>set fights. kill f) \<longrightarrow>
      (\<forall>sel. pickFight toNum fights options = Inr sel \<longrightarrow> sel_kill sel))"
proof (intro conjI impI)
  assume "fights \<noteq> []"
  then show "narrowOnlyKill options fights \<noteq> []" by (rule narrowOnlyKill_nonempty)
next
  assume "\<not> (\<exists>f\<in>set fights. kill f)"
  then show "narrowOnlyKill options fights = fights" by (rule narrowOnlyKill_no_kill)
next
  assume "onlyKill options \<and> (\<exists>f\<in>set fights. kill f)"
  then have "fights \<noteq> []" by auto
  then show "narrowOnlyKill options fights \<noteq> []" by (rule narrowOnlyKill_nonempty)
next
  assume "onlyKill options \<and> (\<exists>f\<in>set fights. kill f)"
  then show "\<forall>f\<in>set (narrowOnlyKill options fights). kill f"
    by (blast intro: narrowOnlyKill_kills)
next
  assume a: "onlyKill options \<and> debugFightID options = None \<and> (\<exists>f\<in>set fights. kill f)"
  then have ne: "fights \<noteq> []" by auto
  show "\<forall>sel. pickFight toNum fights options = Inr sel \<longrightarrow> sel_kill sel"
  proof (intro allI impI)
    fix sel assume p: "pickFight toNum fights options = Inr sel"
    from p ne a obtain c where
      c: "narrowByBoss (parseByBoss toNum (strategy options)) (narrowOnlyKill options fights) = Inr c"
      and ap: "applyStrategy options (parseByBoss toNum (strategy options))
                (withDifficultyPriority c (opt_difficulty options)) = Inr sel"
      by (auto simp: pickFight_def Let_def split: sum.splits)
    from applyStrategy_mem [OF ap] obtain f r where
      f: "f \<in> set (withDifficultyPriority c (opt_difficulty options))"
      and s: "sel = toSelectedFight (opt_reportCode options) f r" by blast
    from f withDifficultyPriority_subset narrowByBoss_subset [OF c]
    have "f \<in> set (narrowOnlyKill options fights)" by blast
    with a have "kill f" by (blast intro: narrowOnlyKill_kills)
    with s show "sel_kill sel" by (simp add: sel_kill_toSelectedFight)
  qed
qed

theorem pickFight_onlyKill_returns_kill_witness:
  "onlyKill (testOptions ''longest'') \<and> debugFightID (testOptions ''longest'') = None \<and>
   (\<exists>f\<in>set testFights. kill f) \<and>
   narrowOnlyKill (testOptions ''longest'') testFights \<noteq> [] \<and>
   (\<exists>sel. pickFight (\<lambda>s. NaN) testFights (testOptions ''longest'') = Inr sel \<and> sel_kill sel) \<and>
   noKillFights \<noteq> [] \<and> \<not> (\<exists>f\<in>set noKillFights. kill f) \<and>
   narrowOnlyKill (testOptions ''longest'') noKillFights = noKillFights"
proof -
  have h1: "onlyKill (testOptions ''longest'')" by (simp add: testOptions_def)
  have h2: "debugFightID (testOptions ''longest'') = None" by (simp add: testOptions_def)
  have h3: "\<exists>f\<in>set testFights. kill f" by (simp add: testFights_def)
  have h4: "noKillFights \<noteq> []" by (simp add: noKillFights_def)
  have h5: "\<not> (\<exists>f\<in>set noKillFights. kill f)" by (simp add: noKillFights_def testFights_def)
  have run: "pickFight (\<lambda>s. NaN) testFights (testOptions ''longest'') =
      Inr (toSelectedFight ''ABC123'' (testFights ! 2) ''strategy=longest'')"
    by (simp add: pickFight_def testFights_def testOptions_def parseByBoss_def narrowOnlyKill_def
        narrowByBoss_def withDifficultyPriority_def applyStrategy_def selectFirst_def
        byDurationDesc_def duration_def)
  note t1 = pickFight_onlyKill_returns_kill [of testFights "testOptions ''longest''" "\<lambda>s. NaN"]
  note t2 = pickFight_onlyKill_returns_kill [of noKillFights "testOptions ''longest''" "\<lambda>s. NaN"]
  from t1 h1 h2 h3 have a: "narrowOnlyKill (testOptions ''longest'') testFights \<noteq> []"
    and b: "\<forall>sel. pickFight (\<lambda>s. NaN) testFights (testOptions ''longest'') = Inr sel \<longrightarrow> sel_kill sel"
    by blast+
  from b run have c: "\<exists>sel. pickFight (\<lambda>s. NaN) testFights (testOptions ''longest'') = Inr sel \<and> sel_kill sel"
    by blast
  from t2 h5 have d: "narrowOnlyKill (testOptions ''longest'') noKillFights = noKillFights" by blast
  from h1 h2 h3 a c h4 h5 d show ?thesis by blast
qed

text \<open>
  Claim C7. With strategy \<open>best\<close> (and no override fight id) \<open>pickFight\<close> on a
  non-empty list returns a candidate that no candidate outranks in the order kill status
  descending, then difficulty descending, then duration descending, then start time
  descending; the candidates are the fights left by the kill and difficulty narrowing.
  With strategy \<open>lastKill\<close> the fight returned is a kill among the candidates that no
  kill among them starts after. For every three fights with ids 1, 2 and 3, of which the
  first is not a kill, the second is a kill of difficulty 100 and the third a kill of
  difficulty 101, in increasing start time, with \<open>onlyKill\<close> set and no required
  difficulty, both \<open>best\<close> and \<open>lastKill\<close> select fight 3.
\<close>

theorem pickFight_best_top:
  "(strategy options = ''best'' \<and> debugFightID options = None \<and> fights \<noteq> [] \<longrightarrow>
      (\<exists>f\<in>set (withDifficultyPriority (narrowOnlyKill options fights) (opt_difficulty options)).
          pickFight toNum fights options =
            Inr (toSelectedFight (opt_reportCode options) f ''strategy=best'') \<and>
          (\<forall>g\<in>set (withDifficultyPriority (narrowOnlyKill options fights) (opt_difficulty options)).
             spec_ranksNotBelow f g))) \<and>
   (strategy options = ''lastKill'' \<and> debugFightID options = None \<and>
    pickFight toNum fights options = Inr sel \<longrightarrow>
      (\<exists>f\<in>set (withDifficultyPriority (narrowOnlyKill options fights) (opt_difficulty options)).
          kill f \<and> sel = toSelectedFight (opt_reportCode options) f ''strategy=lastKill'' \<and>
          (\<forall>g\<in>set (withDifficultyPriority (narrowOnlyKill options fights) (opt_difficulty options)).
             kill g \<longrightarrow> startTime g \<le> startTime f))) \<and>
   (fight_id f1 = 1 \<and> \<not> kill f1 \<and>
    fight_id f2 = 2 \<and> kill f2 \<and> difficulty f2 = Some 100 \<and>
    fight_id f3 = 3 \<and> kill f3 \<and> difficulty f3 = Some 101 \<and>
    startTime f1 < startTime f2 \<and> startTime f2 < startTime f3 \<and>
    onlyKill opts \<and> opt_difficulty opts = None \<and> debugFightID opts = None \<and>
    (strategy opts = ''best'' \<or> strategy opts = ''lastKill'') \<longrightarrow>
      (\<exists>chosen. pickFight toNum [f1, f2, f3] opts = Inr chosen \<and> sel_fightID chosen = 3))"
proof (intro conjI impI)
  assume a: "strategy options = ''best'' \<and> debugFightID options = None \<and> fights \<noteq> []"
  let ?c = "withDifficultyPriority (narrowOnlyKill options fights) (opt_difficulty options)"
  have b: "parseByBoss toNum (strategy options) = None"
    using a by (simp add: parseByBoss_def)
  have "?c \<noteq> []"
    using a by (simp add: narrowOnlyKill_nonempty withDifficultyPriority_nonempty)
  then obtain h t where ht: "js_sort bestComparator ?c = h # t"
    by (cases "js_sort bestComparator ?c") (auto simp: js_sort_Nil_iff)
  have hin: "h \<in> set ?c" using ht set_js_sort [of bestComparator ?c] by auto
  have min: "\<And>g. g \<in> set ?c \<Longrightarrow> spec_ranksNotBelow h g"
    using js_sort_hd_min [of bestComparator ?c h t, OF bestComparator_total bestComparator_trans ht]
    by (simp add: bestComparator_iff)
  have "pickFight toNum fights options =
          Inr (toSelectedFight (opt_reportCode options) h ''strategy=best'')"
    using a b ht by (simp add: pickFight_def narrowByBoss_def applyStrategy_def selectFirst_def)
  with hin min show "\<exists>f\<in>set ?c. pickFight toNum fights options =
            Inr (toSelectedFight (opt_reportCode options) f ''strategy=best'') \<and>
          (\<forall>g\<in>set ?c. spec_ranksNotBelow f g)" by blast
next
  assume "strategy options = ''lastKill'' \<and> debugFightID options = None \<and>
    pickFight toNum fights options = Inr sel"
  then show "\<exists>f\<in>set (withDifficultyPriority (narrowOnlyKill options fights) (opt_difficulty options)).
          kill f \<and> sel = toSelectedFight (opt_reportCode options) f ''strategy=lastKill'' \<and>
          (\<forall>g\<in>set (withDifficultyPriority (narrowOnlyKill options fights) (opt_difficulty options)).
             kill g \<longrightarrow> startTime g \<le> startTime f)"
    by (blast intro: pickFight_lastKill_latest)
next
  assume a: "fight_id f1 = 1 \<and> \<not> kill f1 \<and>
    fight_id f2 = 2 \<and> kill f2 \<and> difficulty f2 = Some 100 \<and>
    fight_id f3 = 3 \<and> kill f3 \<and> difficulty f3 = Some 101 \<and>
    startTime f1 < startTime f2 \<and> startTime f2 < startTime f3 \<and>
    onlyKill opts \<and> opt_difficulty opts = None \<and> debugFightID opts = None \<and>
    (strategy opts = ''best'' \<or> strategy opts = ''lastKill'')"
  then have "strategy opts = ''best'' \<or> strategy opts = ''lastKill''" by simp
  then show "\<exists>chosen. pickFight toNum [f1, f2, f3] opts = Inr chosen \<and> sel_fightID chosen = 3"
  proof
    assume "strategy opts = ''best''"
    with a have "pickFight toNum [f1, f2, f3] opts =
           Inr (toSelectedFight (opt_reportCode opts) f3 ''strategy=best'')"
      by (intro pickFight_three_best) simp_all
    with a show ?thesis by (simp add: toSelectedFight_def)
  next
    assume "strategy opts = ''lastKill''"
    with a have "pickFight toNum [f1, f2, f3] opts =
           Inr (toSelectedFight (opt_reportCode opts) f3 ''strategy=lastKill'')"
      by (intro pickFight_three_lastKill) simp_all
    with a show ?thesis by (simp add: toSelectedFight_def)
  qed
qed

theorem pickFight_best_top_witness:
  "strategy (testOptions ''best'') = ''best'' \<and> debugFightID (testOptions ''best'') = None \<and>
   testFights \<noteq> [] \<and>
   (\<exists>f\<in>set (withDifficultyPriority (narrowOnlyKill (testOptions ''best'') testFights)
                (opt_difficulty (testOptions ''best''))).
       pickFight (\<lambda>s. NaN) testFights (testOptions ''best'') =
         Inr (toSelectedFight (opt_reportCode (testOptions ''best'')) f ''strategy=best'') \<and>
       (\<forall>g\<in>set (withDifficultyPriority (narrowOnlyKill (testOptions ''best'') testFights)
                (opt_difficulty (testOptions ''best''))). spec_ranksNotBelow f g)) \<and>
   pickFight (\<lambda>s. NaN) testFights (testOptions ''lastKill'') =
     Inr (toSelectedFight ''ABC123'' (testFights ! 2) ''strategy=lastKill'') \<and>
   (\<exists>f\<in>set (withDifficultyPriority (narrowOnlyKill (testOptions ''lastKill'') testFights)
                (opt_difficulty (testOptions ''lastKill''))).
       kill f \<and>
       toSelectedFight ''ABC123'' (testFights ! 2) ''strategy=lastKill'' =
         toSelectedFight (opt_reportCode (testOptions ''lastKill'')) f ''strategy=lastKill'' \<and>
       (\<forall>g\<in>set (withDifficultyPriority (narrowOnlyKill (testOptions ''lastKill'') testFights)
                (opt_difficulty (testOptions ''lastKill''))). kill g \<longrightarrow> startTime g \<le> startTime f)) \<and>
   (\<exists>chosen. pickFight (\<lambda>s. NaN) [testFights ! 0, testFights ! 1, testFights ! 2]
               (testOptions ''best'') = Inr chosen \<and> sel_fightID chosen = 3)"
proof -
  have h1: "strategy (testOptions ''best'') = ''best'' \<and>
           debugFightID (testOptions ''best'') = None \<and> testFights \<noteq> []"
    by (simp add: testOptions_def testFights_def)
  have run: "pickFight (\<lambda>s. NaN) testFights (testOptions ''lastKill'') =
     Inr (toSelectedFight ''ABC123'' (testFights ! 2) ''strategy=lastKill'')"
    by (rule pickFight_test_lastKill)
  have h2: "strategy (testOptions ''lastKill'') = ''lastKill'' \<and>
            debugFightID (testOptions ''lastKill'') = None \<and>
            pickFight (\<lambda>s. NaN) testFights (testOptions ''lastKill'') =
              Inr (toSelectedFight ''ABC123'' (testFights ! 2) ''strategy=lastKill'')"
    using run by (simp add: testOptions_def)
  have h3: "fight_id (testFights ! 0) = 1 \<and> \<not> kill (testFights ! 0) \<and>
    fight_id (testFights ! 1) = 2 \<and> kill (testFights ! 1) \<and> difficulty (testFights ! 1) = Some 100 \<and>
    fight_id (testFights ! 2) = 3 \<and> kill (testFights ! 2) \<and> difficulty (testFights ! 2) = Some 101 \<and>
    startTime (testFights ! 0) < startTime (testFights ! 1) \<and>
    startTime (testFights ! 1) < startTime (testFights ! 2) \<and>
    onlyKill (testOptions ''best'') \<and> opt_difficulty (testOptions ''best'') = None \<and>
    debugFightID (testOptions ''best'') = None \<and>
    (strategy (testOptions ''best'') = ''best'' \<or> strategy (testOptions ''best'') = ''lastKill'')"
    by (simp add: testFights_def testOptions_def)
  note t = pickFight_best_top
    [of "testOptions ''best''" testFights "\<lambda>s. NaN" _ "testFights ! 0" "testFights ! 1"
        "testFights ! 2" "testOptions ''best''"]
  note u = pickFight_best_top
    [of "testOptions ''lastKill''" testFights "\<lambda>s. NaN"
        "toSelectedFight ''ABC123'' (testFights ! 2) ''strategy=lastKill''"]
  note c1 = t [THEN conjunct1, THEN mp, OF h1]
  note c2 = u [THEN conjunct2, THEN conjunct1, THEN mp, OF h2]
  note c3 = t [THEN conjunct2, THEN conjunct2, THEN mp, OF h3]
  from h1 have a: "strategy (testOptions ''best'') = ''best''"
    and b: "debugFightID (testOptions ''best'') = None" and c: "testFights \<noteq> []" by simp_all
  show ?thesis by (intro conjI) (rule a b c c1 run c2 c3)+
qed

subsection \<open>Boss inference\<close>

lemma map_of_bumpCount:
  "map_of (bumpCount k cs) = (map_of cs)(k \<mapsto> (case map_of cs k of None \<Rightarrow> 1 | Some c \<Rightarrow> c + 1))"
  by (induction cs) (auto simp: fun_eq_iff)

lemma cntOf_bumpCount: "cntOf (bumpCount k cs) i = cntOf cs i + (if i = k then 1 else 0)"
  by (simp add: cntOf_def map_of_bumpCount split: option.splits)

lemma map_fst_bumpCount:
  "map fst (bumpCount k cs) =
     (if k \<in> set (map fst cs) then map fst cs else map fst cs @ [k])"
  by (induction k cs rule: bumpCount.induct) auto

lemma distinct_bumpCount: "distinct (map fst cs) \<Longrightarrow> distinct (map fst (bumpCount k cs))"
  by (simp add: map_fst_bumpCount)

lemma positive_bumpCount: "\<forall>p\<in>set cs. 0 < snd p \<Longrightarrow> \<forall>p\<in>set (bumpCount k cs). 0 < snd p"
  by (induction k cs rule: bumpCount.induct) auto

text \<open>
  The association list built by the counting loop has distinct keys and positive counts,
  and the count of every key is the number of counted events of that source.
\<close>

lemma countSources_inv:
  "distinct (map fst cs) \<Longrightarrow> \<forall>p\<in>set cs. 0 < snd p \<Longrightarrow>
   distinct (map fst (countSources actors es cs)) \<and>
   (\<forall>p\<in>set (countSources actors es cs). 0 < snd p)"
proof (induction actors es cs rule: countSources.induct)
  case (1 actors counts)
  then show ?case by simp
next
  case (2 actors event events counts)
  show ?case
  proof (cases "sourceID event")
    case None
    have "distinct (map fst (countSources actors events counts)) \<and>
          (\<forall>p\<in>set (countSources actors events counts). 0 < snd p)"
      by (rule "2.IH"(1) [OF None "2.prems"])
    with None show ?thesis by simp
  next
    case (Some sid)
    show ?thesis
    proof (cases "isEnemyCandidate (byId actors sid)")
      case True
      have d: "distinct (map fst (bumpCount sid counts))"
        by (rule distinct_bumpCount [OF "2.prems"(1)])
      have p: "\<forall>p\<in>set (bumpCount sid counts). 0 < snd p"
        by (rule positive_bumpCount [OF "2.prems"(2)])
      have nn: "\<not> \<not> isEnemyCandidate (byId actors sid)" using True by simp
      have "distinct (map fst (countSources actors events (bumpCount sid counts))) \<and>
          (\<forall>p\<in>set (countSources actors events (bumpCount sid counts)). 0 < snd p)"
        by (rule "2.IH"(3) [OF Some nn d p])
      with Some True show ?thesis by simp
    next
      case False
      have "distinct (map fst (countSources actors events counts)) \<and>
          (\<forall>p\<in>set (countSources actors events counts). 0 < snd p)"
        by (rule "2.IH"(2) [OF Some False "2.prems"])
      with Some False show ?thesis by simp
    qed
  qed
qed

lemma spec_eventCount_Cons:
  "spec_eventCount actors (e # es) i =
     (if sourceID e = Some i \<and> isEnemyCandidate (byId actors i) then 1 else 0) + spec_eventCount actors es i"
  by (auto simp: spec_eventCount_def isEnemyCandidate_def isPlayer_def isPet_def split: option.splits)

lemma cntOf_countSources:
  "cntOf (countSources actors es cs) i = cntOf cs i + spec_eventCount actors es i"
proof (induction actors es cs rule: countSources.induct)
  case (1 actors counts)
  then show ?case by (simp add: spec_eventCount_def)
next
  case (2 actors event events counts)
  show ?case
  proof (cases "sourceID event")
    case None
    from "2.IH"(1) [OF None] None show ?thesis by (simp add: spec_eventCount_Cons)
  next
    case (Some sid)
    show ?thesis
    proof (cases "isEnemyCandidate (byId actors sid)")
      case True
      have nn: "\<not> \<not> isEnemyCandidate (byId actors sid)" using True by simp
      from "2.IH"(3) [OF Some nn] Some True show ?thesis
        by (simp add: spec_eventCount_Cons cntOf_bumpCount)
    next
      case False
      from "2.IH"(2) [OF Some False] Some False show ?thesis
        by (auto simp add: spec_eventCount_Cons)
    qed
  qed
qed

text \<open>The selection loop: one step, then the properties of its result.\<close>

lemma pickHighest_step:
  "\<exists>b. (case best of None \<Rightarrow> Some (i, count::nat)
        | Some (bi, bcount) \<Rightarrow> if count > bcount then Some (i, count) else best) = Some b \<and>
       count \<le> snd b \<and> (\<forall>b0. best = Some b0 \<longrightarrow> snd b0 \<le> snd b) \<and>
       (b = (i, count) \<or> best = Some b)"
proof (cases best)
  case None
  then show ?thesis by simp
next
  case (Some b0)
  obtain bi bc where "b0 = (bi, bc)" by (cases b0)
  with Some show ?thesis by simp
qed

lemma pickHighest_None: "pickHighest cs best = None \<longleftrightarrow> cs = [] \<and> best = None"
proof (induction cs best rule: pickHighest.induct)
  case (1 best)
  then show ?case by simp
next
  case (2 i count rest best)
  from pickHighest_step [where best=best and i=i and count=count] obtain b where
    "(case best of None \<Rightarrow> Some (i, count)
        | Some (bi, bcount) \<Rightarrow> if count > bcount then Some (i, count) else best) = Some b" by blast
  with 2 show ?case by simp
qed

lemma pickHighest_mem:
  "pickHighest cs best = Some r \<Longrightarrow> r \<in> set cs \<or> best = Some r"
proof (induction cs best rule: pickHighest.induct)
  case (1 best)
  then show ?case by simp
next
  case (2 i count rest best)
  from pickHighest_step [where best=best and i=i and count=count] obtain b where
    b: "(case best of None \<Rightarrow> Some (i, count)
        | Some (bi, bcount) \<Rightarrow> if count > bcount then Some (i, count) else best) = Some b"
    and c: "b = (i, count) \<or> best = Some b" by blast
  from "2.prems" have "pickHighest rest (Some b) = Some r" by (simp add: b)
  with "2.IH" b have "r \<in> set rest \<or> Some b = Some r" by simp
  with c show ?case by auto
qed

lemma pickHighest_ge_best:
  "pickHighest cs best = Some r \<Longrightarrow> best = Some b \<Longrightarrow> snd b \<le> snd r"
proof (induction cs best arbitrary: b rule: pickHighest.induct)
  case (1 best)
  then show ?case by simp
next
  case (2 i count rest best)
  from pickHighest_step [where best=best and i=i and count=count] obtain b' where
    b: "(case best of None \<Rightarrow> Some (i, count)
        | Some (bi, bcount) \<Rightarrow> if count > bcount then Some (i, count) else best) = Some b'"
    and c: "\<forall>b0. best = Some b0 \<longrightarrow> snd b0 \<le> snd b'" by blast
  from "2.prems"(1) have "pickHighest rest (Some b') = Some r" by (simp add: b)
  with "2.IH" [of b'] b have "snd b' \<le> snd r" by simp
  with c "2.prems"(2) show ?case by fastforce
qed

lemma pickHighest_max:
  "pickHighest cs best = Some r \<Longrightarrow> p \<in> set cs \<Longrightarrow> snd p \<le> snd r"
proof (induction cs best rule: pickHighest.induct)
  case (1 best)
  then show ?case by simp
next
  case (2 i count rest best)
  from pickHighest_step [where best=best and i=i and count=count] obtain b where
    b: "(case best of None \<Rightarrow> Some (i, count)
        | Some (bi, bcount) \<Rightarrow> if count > bcount then Some (i, count) else best) = Some b"
    and le: "count \<le> snd b" by blast
  from "2.prems"(1) have run: "pickHighest rest (Some b) = Some r" by (simp add: b)
  from "2.prems"(2) have "p = (i, count) \<or> p \<in> set rest" by simp
  then show ?case
  proof
    assume p: "p = (i, count)"
    from pickHighest_ge_best [OF run refl] le p show ?thesis by simp
  next
    assume "p \<in> set rest"
    with "2.IH" run b show ?thesis by simp
  qed
qed

lemma cntOf_Nil: "cntOf [] i = 0"
  by (simp add: cntOf_def)

lemma cntOf_mem:
  "distinct (map fst cs) \<Longrightarrow> p \<in> set cs \<Longrightarrow> cntOf cs (fst p) = snd p"
  by (cases p) (simp add: cntOf_def)

lemma cntOf_pos_mem: "0 < cntOf cs i \<Longrightarrow> (i, cntOf cs i) \<in> set cs"
  by (auto simp: cntOf_def split: option.splits dest: map_of_SomeD)

lemma inferBoss_None:
  "inferBossActorId events actors = None \<longleftrightarrow> (\<forall>i. spec_eventCount actors events i = 0)"
proof -
  let ?cs = "countSources actors events []"
  have inv: "distinct (map fst ?cs) \<and> (\<forall>p\<in>set ?cs. 0 < snd p)"
    by (rule countSources_inv) simp_all
  have cnt: "\<And>i. cntOf ?cs i = spec_eventCount actors events i"
    by (simp add: cntOf_countSources cntOf_Nil)
  have "inferBossActorId events actors = None \<longleftrightarrow> ?cs = []"
    by (simp add: inferBossActorId_def pickHighest_None)
  also have "\<dots> \<longleftrightarrow> (\<forall>i. cntOf ?cs i = 0)"
  proof
    assume "?cs = []" then show "\<forall>i. cntOf ?cs i = 0" by (simp add: cntOf_def)
  next
    assume z: "\<forall>i. cntOf ?cs i = 0"
    show "?cs = []"
    proof (rule ccontr)
      assume "?cs \<noteq> []"
      then obtain p where p: "p \<in> set ?cs" by (cases ?cs) auto
      with inv have "cntOf ?cs (fst p) = snd p" "0 < snd p" by (simp_all add: cntOf_mem)
      with z show False by simp
    qed
  qed
  finally show ?thesis by (simp add: cnt)
qed

lemma inferBoss_Some:
  assumes "inferBossActorId events actors = Some b"
  shows "0 < spec_eventCount actors events b \<and>
         (\<forall>i. spec_eventCount actors events i \<le> spec_eventCount actors events b)"
proof -
  let ?cs = "countSources actors events []"
  have inv: "distinct (map fst ?cs) \<and> (\<forall>p\<in>set ?cs. 0 < snd p)"
    by (rule countSources_inv) simp_all
  have cnt: "\<And>i. cntOf ?cs i = spec_eventCount actors events i"
    by (simp add: cntOf_countSources cntOf_Nil)
  from assms obtain r where r: "pickHighest ?cs None = Some r" and b: "b = fst r"
    by (auto simp: inferBossActorId_def)
  from pickHighest_mem [OF r] have mem: "r \<in> set ?cs" by simp
  with inv b have rb: "cntOf ?cs b = snd r" and pos: "0 < snd r" by (simp_all add: cntOf_mem)
  have "cntOf ?cs i \<le> snd r" for i
  proof (cases "0 < cntOf ?cs i")
    case True
    then have "(i, cntOf ?cs i) \<in> set ?cs" by (rule cntOf_pos_mem)
    from pickHighest_max [OF r this] show ?thesis by simp
  next
    case False
    then show ?thesis by simp
  qed
  with rb pos show ?thesis by (simp add: cnt [symmetric])
qed

text \<open>
  Claim C9. \<open>inferBossActorId\<close> counts the events of every source actor that is
  neither a player nor a pet (\<open>spec_eventCount\<close>). It returns \<open>null\<close> exactly when
  no such actor has an event; an actor id it returns has at least one counted event and
  no actor has more. In particular, when two such actors have 5 and 12 events and no
  other actor is counted, the actor with 12 events is returned.
\<close>

theorem inferBossActorId_highest_count:
  "(inferBossActorId events actors = None \<longleftrightarrow> (\<forall>i. spec_eventCount actors events i = 0)) \<and>
   (\<forall>b. inferBossActorId events actors = Some b \<longrightarrow>
      0 < spec_eventCount actors events b \<and>
      (\<forall>i. spec_eventCount actors events i \<le> spec_eventCount actors events b)) \<and>
   (\<forall>a b. spec_eventCount actors events a = 5 \<and> spec_eventCount actors events b = 12 \<and>
      (\<forall>i. i \<noteq> a \<and> i \<noteq> b \<longrightarrow> spec_eventCount actors events i = 0) \<longrightarrow>
      inferBossActorId events actors = Some b)"
proof (intro conjI allI impI)
  show "inferBossActorId events actors = None \<longleftrightarrow> (\<forall>i. spec_eventCount actors events i = 0)"
    by (rule inferBoss_None)
next
  fix b assume "inferBossActorId events actors = Some b"
  then show "0 < spec_eventCount actors events b" by (simp add: inferBoss_Some)
next
  fix b i assume "inferBossActorId events actors = Some b"
  then show "spec_eventCount actors events i \<le> spec_eventCount actors events b"
    by (simp add: inferBoss_Some)
next
  fix a b
  assume h: "spec_eventCount actors events a = 5 \<and> spec_eventCount actors events b = 12 \<and>
      (\<forall>i. i \<noteq> a \<and> i \<noteq> b \<longrightarrow> spec_eventCount actors events i = 0)"
  then have "\<not> (\<forall>i. spec_eventCount actors events i = 0)" by (metis zero_neq_numeral)
  then obtain c where c: "inferBossActorId events actors = Some c"
    by (cases "inferBossActorId events actors") (simp_all add: inferBoss_None)
  from inferBoss_Some [OF c] have pos: "0 < spec_eventCount actors events c"
    and ge: "spec_eventCount actors events b \<le> spec_eventCount actors events c" by simp_all
  have "c = b"
  proof (rule ccontr)
    assume nb: "c \<noteq> b"
    show False
    proof (cases "c = a")
      case True
      with h ge show False by simp
    next
      case False
      with nb h have "spec_eventCount actors events c = 0" by simp
      with pos show False by simp
    qed
  qed
  with c show "inferBossActorId events actors = Some b" by simp
qed

lemma bossExample_counts:
  "spec_eventCount bossExampleActors bossExampleEvents i =
     (if i = 10 then 5 else if i = 20 then 12 else 0)"
  by (simp add: spec_eventCount_def bossExampleActors_def bossExampleEvents_def castBy_def
      isPlayer_def isPet_def npcActor_def playerActor_def)

theorem inferBossActorId_highest_count_witness:
  "spec_eventCount bossExampleActors bossExampleEvents 10 = 5 \<and>
   spec_eventCount bossExampleActors bossExampleEvents 20 = 12 \<and>
   inferBossActorId bossExampleEvents bossExampleActors = Some 20"
proof -
  have h: "spec_eventCount bossExampleActors bossExampleEvents 10 = 5 \<and>
      spec_eventCount bossExampleActors bossExampleEvents 20 = 12 \<and>
      (\<forall>i. i \<noteq> 10 \<and> i \<noteq> 20 \<longrightarrow> spec_eventCount bossExampleActors bossExampleEvents i = 0)"
    by (simp add: bossExample_counts)
  from inferBossActorId_highest_count [of bossExampleEvents bossExampleActors] h
  show ?thesis by blast
qed

text \<open>
  Claim C10. A source id that has no entry in the actor map passes
  \<open>isEnemyCandidate\<close>, so all its events are counted; when its count exceeds the
  count of every other actor, it is the id \<open>inferBossActorId\<close> returns.
\<close>

theorem inferBossActorId_unknown_source:
  "isEnemyCandidate None \<and>
   (byId actors u = None \<and>
    (\<forall>i. i \<noteq> u \<longrightarrow>
       spec_eventCount actors events i < length (filter (\<lambda>e. sourceID e = Some u) events)) \<longrightarrow>
    isEnemyCandidate (byId actors u) \<and>
    spec_eventCount actors events u = length (filter (\<lambda>e. sourceID e = Some u) events) \<and>
    inferBossActorId events actors = Some u)"
proof (intro conjI impI)
  show "isEnemyCandidate None" by (simp add: isEnemyCandidate_def)
next
  assume h: "byId actors u = None \<and>
    (\<forall>i. i \<noteq> u \<longrightarrow>
       spec_eventCount actors events i < length (filter (\<lambda>e. sourceID e = Some u) events))"
  then show "isEnemyCandidate (byId actors u)" by (simp add: isEnemyCandidate_def)
  from h show cu: "spec_eventCount actors events u = length (filter (\<lambda>e. sourceID e = Some u) events)"
    by (simp add: spec_eventCount_def isPlayer_def isPet_def)
  from h have lt: "\<And>i. i \<noteq> u \<Longrightarrow> spec_eventCount actors events i < spec_eventCount actors events u"
    by (simp add: cu)
  from lt [of "u + 1"] have "0 < spec_eventCount actors events u" by simp
  then have "\<not> (\<forall>i. spec_eventCount actors events i = 0)" by auto
  then obtain c where c: "inferBossActorId events actors = Some c"
    by (cases "inferBossActorId events actors") (simp_all add: inferBoss_None)
  from inferBoss_Some [OF c]
  have ge: "spec_eventCount actors events u \<le> spec_eventCount actors events c" by simp
  have "c = u"
  proof (rule ccontr)
    assume "c \<noteq> u"
    from lt [OF this] ge show False by simp
  qed
  with c show "inferBossActorId events actors = Some u" by simp
qed

theorem inferBossActorId_unknown_source_witness:
  "byId unknownSourceActors 99 = None \<and>
   length (filter (\<lambda>e. sourceID e = Some 99) unknownSourceEvents) = 2 \<and>
   spec_eventCount unknownSourceActors unknownSourceEvents 10 = 1 \<and>
   inferBossActorId unknownSourceEvents unknownSourceActors = Some 99"
proof -
  have a: "byId unknownSourceActors 99 = None" by (simp add: unknownSourceActors_def)
  have n: "length (filter (\<lambda>e. sourceID e = Some 99) unknownSourceEvents) = 2"
    by (simp add: unknownSourceEvents_def castBy_def)
  have c: "spec_eventCount unknownSourceActors unknownSourceEvents i =
      (if i = 99 then 2 else if i = 10 then 1 else 0)" for i
    by (simp add: spec_eventCount_def unknownSourceActors_def unknownSourceEvents_def castBy_def
        isPlayer_def isPet_def npcActor_def playerActor_def)
  have h: "\<forall>i. i \<noteq> 99 \<longrightarrow> spec_eventCount unknownSourceActors unknownSourceEvents i
            < length (filter (\<lambda>e. sourceID e = Some 99) unknownSourceEvents)"
    by (simp add: c n)
  from inferBossActorId_unknown_source [of unknownSourceActors 99 unknownSourceEvents] a h n c [of 10]
  show ?thesis by simp
qed

subsection \<open>Ability display names\<close>

text \<open>
  With \<open>finalAbilityById\<close> supplied, \<open>resolveAbility\<close> never reads the names of the log
  service.
\<close>

lemma resolveAbility_final:
  "resolveAbility event actors (Some (finalAbilityById xiv ov)) =
     (pipelineDisplayName ov xiv (abilityIdOf event), abilityIdOf event)"
  by (simp add: resolveAbility_def finalAbilityById_def pipelineDisplayName_def map_add_def Let_def
      split: option.splits)

lemma timelineEntry_final:
  "tl_ability (timelineEntry actors st (Some (finalAbilityById xiv ov)) bossName event) =
     pipelineDisplayName ov xiv
       (tl_abilityId (timelineEntry actors st (Some (finalAbilityById xiv ov)) bossName event))"
  by (simp add: timelineEntry_def resolveAbility_final)

lemma buildBossTimeline_final:
  "x \<in> set (buildBossTimeline events actors st (Some (finalAbilityById xiv ov))) \<Longrightarrow>
   tl_ability x = pipelineDisplayName ov xiv (tl_abilityId x)"
  by (auto simp: buildBossTimeline_def Let_def timelineEntry_final split: option.splits)

lemma playerCastEntry_final:
  "pc_ability (playerCastEntry actors st (Some (finalAbilityById xiv ov)) sid event) =
     pipelineDisplayName ov xiv
       (pc_abilityId (playerCastEntry actors st (Some (finalAbilityById xiv ov)) sid event))"
  by (simp add: playerCastEntry_def resolveAbility_final)

lemma appendToGroup_all:
  "\<forall>g\<in>set groups. \<forall>x\<in>set (snd g). P x \<Longrightarrow> P e \<Longrightarrow>
   \<forall>g\<in>set (appendToGroup k e groups). \<forall>x\<in>set (snd g). P x"
  by (induction k e groups rule: appendToGroup.induct) auto

lemma groupPlayerCasts_all:
  assumes "\<And>sid event. P (playerCastEntry actors st extra sid event)"
  shows "\<forall>g\<in>set grouped. \<forall>x\<in>set (snd g). P x \<Longrightarrow>
         \<forall>g\<in>set (groupPlayerCasts actors st extra events grouped). \<forall>x\<in>set (snd g). P x"
proof (induction events arbitrary: grouped)
  case Nil
  then show ?case by simp
next
  case (Cons event events)
  note prems = Cons.prems and IH = Cons.IH
  show ?case
  proof (cases "sourceID event")
    case None
    with IH [OF prems] show ?thesis by simp
  next
    case (Some sid)
    show ?thesis
    proof (cases "isPlayer (byId actors sid)")
      case True
      have "\<forall>g\<in>set (appendToGroup sid (playerCastEntry actors st extra sid event) grouped).
              \<forall>x\<in>set (snd g). P x"
        by (rule appendToGroup_all [OF prems assms])
      from IH [OF this] Some True show ?thesis by simp
    next
      case False
      with IH [OF prems] Some show ?thesis by simp
    qed
  qed
qed

lemma setProperty_all:
  "\<forall>g\<in>set result. \<forall>x\<in>set (snd g). P x \<Longrightarrow> \<forall>x\<in>set v. P x \<Longrightarrow>
   \<forall>g\<in>set (setProperty k v result). \<forall>x\<in>set (snd g). P x"
  by (induction k v result rule: setProperty.induct) auto

lemma emitGroups_all:
  "\<forall>g\<in>set groups. \<forall>x\<in>set (snd g). P x \<Longrightarrow>
   \<forall>g\<in>set result. \<forall>x\<in>set (snd g). P x \<Longrightarrow>
   \<forall>g\<in>set (emitGroups groups result). \<forall>x\<in>set (snd g). P x"
proof (induction groups arbitrary: result)
  case Nil
  then show ?case by simp
next
  case (Cons g groups)
  note prems = Cons.prems and IH = Cons.IH
  obtain sid entries where g: "g = (sid, entries)" by (cases g)
  from prems(1) have rest: "\<forall>g\<in>set groups. \<forall>x\<in>set (snd g). P x" by simp
  from prems(1) g have ent: "\<forall>x\<in>set entries. P x" by simp
  show ?case
  proof (cases "js_sort byRelativeTime entries")
    case Nil
    with IH [OF rest prems(2)] g show ?thesis by simp
  next
    case (Cons first others)
    have "set (first # others) = set entries"
      using set_js_sort [of byRelativeTime entries] Cons by simp
    with ent have "\<forall>x\<in>set (first # others). P x" by simp
    from setProperty_all [OF prems(2) this]
    have "\<forall>g\<in>set (setProperty (pc_source first @ ''#'' @ showInt (pc_sourceId first))
               (first # others) result). \<forall>x\<in>set (snd g). P x" .
    from IH [OF rest this] g Cons show ?thesis by simp
  qed
qed

lemma buildPlayerCasts_final:
  "g \<in> set (buildPlayerCasts events actors st (Some (finalAbilityById xiv ov))) \<Longrightarrow>
   x \<in> set (snd g) \<Longrightarrow> pc_ability x = pipelineDisplayName ov xiv (pc_abilityId x)"
proof -
  let ?P = "\<lambda>x. pc_ability x = pipelineDisplayName ov xiv (pc_abilityId x)"
  have "\<forall>g\<in>set (groupPlayerCasts actors st (Some (finalAbilityById xiv ov)) events []).
          \<forall>x\<in>set (snd g). ?P x"
    by (rule groupPlayerCasts_all [where P = ?P]) (simp_all add: playerCastEntry_final)
  then have "\<forall>g\<in>set (buildPlayerCasts events actors st (Some (finalAbilityById xiv ov))).
          \<forall>x\<in>set (snd g). ?P x"
    unfolding buildPlayerCasts_def by (rule emitGroups_all) simp
  then show "g \<in> set (buildPlayerCasts events actors st (Some (finalAbilityById xiv ov))) \<Longrightarrow>
   x \<in> set (snd g) \<Longrightarrow> ?P x" by blast
qed

lemma pipelineDisplayName_spec:
  "ov i \<noteq> None \<or> xiv i \<noteq> None \<or> logName = None \<Longrightarrow>
   pipelineDisplayName ov xiv i = spec_displayName ov xiv logName i"
  by (auto simp: pipelineDisplayName_def spec_displayName_def split: option.splits)

lemma showInt_7: "showInt 7 = ''7''"
  by (simp add: showInt_def showNat.simps digitChar_def)

text \<open>
  Claim C2, as amended. Every entry of the boss timeline and of the player casts that
  \<open>runPipeline\<close> emits carries, for its ability id, the manual override if there is one,
  else the name resolved by XIVAPI, else the placeholder \<open>Ability#<id>\<close>. This is the
  priority of the specification whenever an override or an XIVAPI name exists for the id,
  or the log service supplied no name.
\<close>

theorem pipeline_display_name_priority:
  "(\<forall>x\<in>set (fst (runPipeline_emit castEvents bossEvents actorMap st xiv ov)).
      tl_ability x = pipelineDisplayName ov xiv (tl_abilityId x)) \<and>
   (\<forall>g\<in>set (snd (runPipeline_emit castEvents bossEvents actorMap st xiv ov)).
      \<forall>x\<in>set (snd g). pc_ability x = pipelineDisplayName ov xiv (pc_abilityId x)) \<and>
   (ov i \<noteq> None \<or> xiv i \<noteq> None \<or> logName = None \<longrightarrow>
      pipelineDisplayName ov xiv i = spec_displayName ov xiv logName i)"
proof (intro conjI ballI impI)
  fix x assume "x \<in> set (fst (runPipeline_emit castEvents bossEvents actorMap st xiv ov))"
  then show "tl_ability x = pipelineDisplayName ov xiv (tl_abilityId x)"
    by (simp add: runPipeline_emit_def Let_def buildBossTimeline_final)
next
  fix g x
  assume "g \<in> set (snd (runPipeline_emit castEvents bossEvents actorMap st xiv ov))"
    and "x \<in> set (snd g)"
  then show "pc_ability x = pipelineDisplayName ov xiv (pc_abilityId x)"
    by (simp add: runPipeline_emit_def Let_def buildPlayerCasts_final)
next
  assume "ov i \<noteq> None \<or> xiv i \<noteq> None \<or> logName = None"
  then show "pipelineDisplayName ov xiv i = spec_displayName ov xiv logName i"
    by (rule pipelineDisplayName_spec)
qed

lemma nameExample_boss:
  "inferBossActorId [namedCast 20 1000 7 n] nameExampleActors = Some 20"
  by (simp add: inferBossActorId_def namedCast_def nameExampleActors_def isEnemyCandidate_def
      isPlayer_def isPet_def npcActor_def)

lemma nameExample_timeline:
  "buildBossTimeline [namedCast 20 1000 7 n] nameExampleActors 0 (Some (finalAbilityById xiv ov)) =
   [\<lparr> tl_t = 1, tl_source = ''Boss'', tl_ability = pipelineDisplayName ov xiv 7,
      tl_abilityId = 7 \<rparr>]"
proof -
  have c: "isCastLike (namedCast 20 1000 7 n)"
    by (simp add: isCastLike_def namedCast_def toLowerCase_def toLowerChar_def)
  have s: "sourceID (namedCast 20 1000 7 n) = Some 20" by (simp add: namedCast_def)
  have i: "abilityIdOf (namedCast 20 1000 7 n) = 7" by (simp add: abilityIdOf_def namedCast_def)
  have t: "timestamp (namedCast 20 1000 7 n) = 1000" by (simp add: namedCast_def)
  have l: "actorLabel (byId nameExampleActors 20) 20 = ''Boss''"
    by (simp add: actorLabel_def nameExampleActors_def npcActor_def)
  show ?thesis
    by (simp add: buildBossTimeline_def nameExample_boss Let_def c s l timelineEntry_def
        resolveAbility_final i t relativeSeconds_def)
qed

theorem pipeline_display_name_priority_witness:
  "fst (runPipeline_emit [namedCast 1 2000 9 ''Cure''] [namedCast 20 1000 7 ''Fireball'']
     nameExampleActors 0 [7 \<mapsto> ''Fire III''] [9 \<mapsto> ''Heal'', 7 \<mapsto> ''Flare'']) =
     [\<lparr> tl_t = 1, tl_source = ''Boss'', tl_ability = ''Flare'', tl_abilityId = 7 \<rparr>] \<and>
   pipelineDisplayName [9 \<mapsto> ''Heal'', 7 \<mapsto> ''Flare''] [7 \<mapsto> ''Fire III''] 7 =
     spec_displayName [9 \<mapsto> ''Heal'', 7 \<mapsto> ''Flare''] [7 \<mapsto> ''Fire III''] (Some ''Fireball'') 7"
proof -
  have h: "[9 \<mapsto> ''Heal'', 7 \<mapsto> ''Flare''] (7::int) \<noteq> None \<or> [7 \<mapsto> ''Fire III''] (7::int) \<noteq> None \<or>
           Some ''Fireball'' = None" by simp
  have "pipelineDisplayName [9 \<mapsto> ''Heal'', 7 \<mapsto> ''Flare''] [7 \<mapsto> ''Fire III''] 7 =
     spec_displayName [9 \<mapsto> ''Heal'', 7 \<mapsto> ''Flare''] [7 \<mapsto> ''Fire III''] (Some ''Fireball'') 7"
    by (rule pipeline_display_name_priority
        [of "[namedCast 1 2000 9 ''Cure'']" "[namedCast 20 1000 7 ''Fireball'']" nameExampleActors 0
            "[7 \<mapsto> ''Fire III'']" "[9 \<mapsto> ''Heal'', 7 \<mapsto> ''Flare'']" 7 "Some ''Fireball''",
         THEN conjunct2, THEN conjunct2, THEN mp, OF h])
  moreover have "pipelineDisplayName [9 \<mapsto> ''Heal'', 7 \<mapsto> ''Flare''] [7 \<mapsto> ''Fire III''] (7::int) = ''Flare''"
    by (simp add: pipelineDisplayName_def)
  ultimately show ?thesis by (simp add: runPipeline_emit_def Let_def nameExample_timeline)
qed

text \<open>
  Claim C2 as stated fails: for a boss cast of ability 7 that the log service names
  \<open>Fireball\<close>, with no override and no XIVAPI name, the emitted timeline entry is named
  \<open>Ability#7\<close>, where the priority of the specification gives \<open>Fireball\<close>.
\<close>

theorem pipeline_ignores_log_service_name_counterexample:
  "fst (runPipeline_emit [] [namedCast 20 1000 7 ''Fireball''] nameExampleActors 0 Map.empty Map.empty) =
     [\<lparr> tl_t = 1, tl_source = ''Boss'', tl_ability = ''Ability#7'', tl_abilityId = 7 \<rparr>] \<and>
   logServiceName (namedCast 20 1000 7 ''Fireball'') nameExampleActors = Some ''Fireball'' \<and>
   spec_displayName Map.empty Map.empty
     (logServiceName (namedCast 20 1000 7 ''Fireball'') nameExampleActors) 7 = ''Fireball''"
proof -
  have "pipelineDisplayName Map.empty Map.empty 7 = ''Ability#7''"
    by (simp add: pipelineDisplayName_def placeholderName_def showInt_7)
  moreover have "logServiceName (namedCast 20 1000 7 ''Fireball'') nameExampleActors = Some ''Fireball''"
    by (simp add: logServiceName_def namedCast_def)
  ultimately show ?thesis
    by (simp add: spec_displayName_def runPipeline_emit_def Let_def nameExample_timeline)
qed

subsection \<open>\<open>FFLogsGraphQLClient.request\<close>\<close>

lemma tryAttempt_retryable:
  "status response \<in> RETRYABLE_STATUS \<Longrightarrow> attempt \<le> maxRetries \<Longrightarrow>
   tryAttempt maxRetries attempt (Responded response) = SleepAndContinue"
  by (simp add: tryAttempt_def)

lemma tryAttempt_dataResponse: "tryAttempt maxRetries attempt (dataResponse d) = Return d"
  by (simp add: tryAttempt_def dataResponse_def RETRYABLE_STATUS_def response_ok_def)

lemma tryAttempt_errorsResponse:
  "tryAttempt maxRetries attempt (errorsResponse (m # ms)) =
     Throw (''GraphQL errors: '' @ joinWith '' | '' (m # ms))"
  by (simp add: tryAttempt_def errorsResponse_def RETRYABLE_STATUS_def response_ok_def)

lemma tryAttempt_429:
  "attempt \<le> maxRetries \<Longrightarrow>
   tryAttempt maxRetries attempt (statusResponse 429 reason text) = SleepAndContinue"
  by (simp add: tryAttempt_def statusResponse_def RETRYABLE_STATUS_def)

lemma showNat_404: "showNat 404 = ''404''"
  by (simp add: showNat.simps digitChar_def)

lemma tryAttempt_404:
  "tryAttempt maxRetries attempt (statusResponse 404 reason text) =
     Throw (''GraphQL request failed: 404 '' @ reason @ '' '' @ text)"
  by (simp add: tryAttempt_def statusResponse_def RETRYABLE_STATUS_def response_ok_def showNat_404)

text \<open>A run of retryable answers within the maximum, and the answer after the maximum.\<close>

lemma request_loop_retryable_run:
  "\<forall>r\<in>set rs. status r \<in> RETRYABLE_STATUS \<Longrightarrow> a + length rs \<le> M \<Longrightarrow>
   request_loop M (map Responded rs @ rest) a slept =
   request_loop M rest (a + length rs) (slept @ map (\<lambda>i. 250 * 2 ^ i) [a..<a + length rs])"
proof (induction rs arbitrary: a slept)
  case Nil
  then show ?case by simp
next
  case (Cons r rs)
  note prems = Cons.prems and IH = Cons.IH
  from prems have r: "status r \<in> RETRYABLE_STATUS" and le: "a + 1 \<le> M" by simp_all
  from prems have rest: "\<forall>r\<in>set rs. status r \<in> RETRYABLE_STATUS"
    and le': "(a + 1) + length rs \<le> M" by simp_all
  have "request_loop M (map Responded (r # rs) @ rest) a slept =
        request_loop M (map Responded rs @ rest) (a + 1) (slept @ [250 * 2 ^ a])"
    using r le by (simp add: tryAttempt_retryable backoffMs_def)
  also have "\<dots> = request_loop M rest ((a + 1) + length rs)
        ((slept @ [250 * 2 ^ a]) @ map (\<lambda>i. 250 * 2 ^ i) [a + 1..<(a + 1) + length rs])"
    by (rule IH [OF rest le'])
  also have "(slept @ [250 * 2 ^ a]) @ map (\<lambda>i. 250 * 2 ^ i) [a + 1..<(a + 1) + length rs] =
        slept @ map (\<lambda>i. 250 * 2 ^ i) [a..<a + length (r # rs)]"
  proof -
    have "[a..<Suc (a + length rs)] = a # [Suc a..<Suc (a + length rs)]"
      by (rule upt_conv_Cons) simp
    then show ?thesis by simp
  qed
  finally show ?case by simp
qed

lemma retryable_not_ok: "status r \<in> RETRYABLE_STATUS \<Longrightarrow> \<not> response_ok r"
  by (auto simp: RETRYABLE_STATUS_def response_ok_def)

lemma request_loop_retries_exhausted:
  "status r \<in> RETRYABLE_STATUS \<Longrightarrow> M \<le> a \<Longrightarrow>
   request_loop M (Responded r # rest) a slept =
     Some \<lparr> outcome = Inl (''GraphQL request failed: '' @ showNat (status r) @ '' '' @
                            statusText r @ '' '' @ body_text r),
            attempts = a + 1, sleeps = slept \<rparr>"
  by (simp add: tryAttempt_def retryable_not_ok)

lemma request_configured:
  "request cfg upstream =
     request_loop (case cfg of None \<Rightarrow> 4 | Some m \<Rightarrow> m) upstream 0 []"
  by (cases cfg) (simp_all add: request_def DEFAULT_RETRIES_def)

text \<open>
  Claim C8. When an attempt is answered with a status in \<open>{429, 500, 502, 503, 504}\<close>
  and the attempt counter (which starts at 1: \<open>attempt0 + 1\<close>) has not exceeded the
  maximum, \<open>request\<close> sleeps \<open>250 * 2 ^ (attempt - 1)\<close> milliseconds and goes on with the
  next attempt. The maximum is \<open>config.maxRetries\<close>, 4 when that is not set: a run of
  answers with such a status that is no longer than the maximum, followed by a 200 answer
  with data, gives the data, after one sleep of \<open>250 * 2 ^ i\<close> for the \<open>i\<close>-th of them;
  and when as many of them as the maximum are followed by one more, the counter has
  exceeded the maximum and that answer is surfaced as the error. With the default
  maximum, three answers of status 429 followed by a 200 answer with data give the data
  at the fourth attempt, after sleeps of 250, 500 and 1000 milliseconds.
\<close>

theorem request_retries_retryable_status:
  "(status response \<in> RETRYABLE_STATUS \<and> attempt0 + 1 \<le> maxRetries \<longrightarrow>
      request_loop maxRetries (Responded response # rest) attempt0 slept =
      request_loop maxRetries rest (attempt0 + 1) (slept @ [250 * 2 ^ attempt0])) \<and>
   ((\<forall>r\<in>set rs. status r \<in> RETRYABLE_STATUS) \<and>
    length rs \<le> (case cfg of None \<Rightarrow> 4 | Some m \<Rightarrow> m) \<longrightarrow>
      request cfg (map Responded rs @ dataResponse d # later) =
        Some \<lparr> outcome = Inr d, attempts = length rs + 1,
               sleeps = map (\<lambda>i. 250 * 2 ^ i) [0..<length rs] \<rparr>) \<and>
   ((\<forall>r\<in>set rs. status r \<in> RETRYABLE_STATUS) \<and> status final \<in> RETRYABLE_STATUS \<and>
    length rs = (case cfg of None \<Rightarrow> 4 | Some m \<Rightarrow> m) \<longrightarrow>
      request cfg (map Responded rs @ Responded final # later) =
        Some \<lparr> outcome = Inl (''GraphQL request failed: '' @ showNat (status final) @ '' '' @
                               statusText final @ '' '' @ body_text final),
               attempts = length rs + 1,
               sleeps = map (\<lambda>i. 250 * 2 ^ i) [0..<length rs] \<rparr>) \<and>
   request None
     [statusResponse 429 r1 b1, statusResponse 429 r2 b2, statusResponse 429 r3 b3, dataResponse d] =
     Some \<lparr> outcome = Inr d, attempts = 4, sleeps = [250, 500, 1000] \<rparr>"
proof (intro conjI impI)
  assume "status response \<in> RETRYABLE_STATUS \<and> attempt0 + 1 \<le> maxRetries"
  then show "request_loop maxRetries (Responded response # rest) attempt0 slept =
      request_loop maxRetries rest (attempt0 + 1) (slept @ [250 * 2 ^ attempt0])"
    by (simp add: tryAttempt_retryable backoffMs_def)
next
  let ?M = "case cfg of None \<Rightarrow> 4 | Some m \<Rightarrow> m"
  assume a: "(\<forall>r\<in>set rs. status r \<in> RETRYABLE_STATUS) \<and> length rs \<le> ?M"
  then have "request_loop ?M (map Responded rs @ dataResponse d # later) 0 [] =
      request_loop ?M (dataResponse d # later) (0 + length rs)
        ([] @ map (\<lambda>i. 250 * 2 ^ i) [0..<0 + length rs])"
    by (intro request_loop_retryable_run) simp_all
  then show "request cfg (map Responded rs @ dataResponse d # later) =
        Some \<lparr> outcome = Inr d, attempts = length rs + 1,
               sleeps = map (\<lambda>i. 250 * 2 ^ i) [0..<length rs] \<rparr>"
    by (simp add: request_configured tryAttempt_dataResponse)
next
  let ?M = "case cfg of None \<Rightarrow> 4 | Some m \<Rightarrow> m"
  assume a: "(\<forall>r\<in>set rs. status r \<in> RETRYABLE_STATUS) \<and> status final \<in> RETRYABLE_STATUS \<and>
    length rs = ?M"
  then have "request_loop ?M (map Responded rs @ Responded final # later) 0 [] =
      request_loop ?M (Responded final # later) (0 + length rs)
        ([] @ map (\<lambda>i. 250 * 2 ^ i) [0..<0 + length rs])"
    by (intro request_loop_retryable_run) simp_all
  also have "\<dots> = Some \<lparr> outcome = Inl (''GraphQL request failed: '' @ showNat (status final) @ '' '' @
                               statusText final @ '' '' @ body_text final),
               attempts = (0 + length rs) + 1,
               sleeps = [] @ map (\<lambda>i. 250 * 2 ^ i) [0..<0 + length rs] \<rparr>"
    using a by (intro request_loop_retries_exhausted) simp_all
  finally show "request cfg (map Responded rs @ Responded final # later) =
        Some \<lparr> outcome = Inl (''GraphQL request failed: '' @ showNat (status final) @ '' '' @
                               statusText final @ '' '' @ body_text final),
               attempts = length rs + 1,
               sleeps = map (\<lambda>i. 250 * 2 ^ i) [0..<length rs] \<rparr>"
    by (simp add: request_configured)
next
  show "request None
     [statusResponse 429 r1 b1, statusResponse 429 r2 b2, statusResponse 429 r3 b3, dataResponse d] =
     Some \<lparr> outcome = Inr d, attempts = 4, sleeps = [250, 500, 1000] \<rparr>"
    by (simp add: request_def DEFAULT_RETRIES_def tryAttempt_429 tryAttempt_dataResponse backoffMs_def)
qed

lemma showNat_429: "showNat 429 = ''429''"
  by (simp add: showNat.simps digitChar_def)

theorem request_retries_retryable_status_witness:
  "503 \<in> RETRYABLE_STATUS \<and> 429 \<in> RETRYABLE_STATUS \<and> (1::nat) + 1 \<le> 4 \<and>
   request_loop 4 [statusResponse 503 ''Service Unavailable'' ''busy'', dataResponse (7::nat)] 1 [250] =
     Some \<lparr> outcome = Inr 7, attempts = 3, sleeps = [250, 500] \<rparr> \<and>
   request (Some 2)
     [statusResponse 503 ''Service Unavailable'' ''busy'',
      statusResponse 429 ''Too Many Requests'' ''slow'', dataResponse (7::nat)] =
     Some \<lparr> outcome = Inr 7, attempts = 3, sleeps = [250, 500] \<rparr> \<and>
   request (Some 2)
     [statusResponse 503 ''Service Unavailable'' ''busy'',
      statusResponse 429 ''Too Many Requests'' ''slow'',
      statusResponse 429 ''Too Many Requests'' ''slow'', dataResponse (7::nat)] =
     Some \<lparr> outcome = Inl ''GraphQL request failed: 429 Too Many Requests slow'',
            attempts = 3, sleeps = [250, 500] \<rparr> \<and>
   request None
     [statusResponse 429 ''Too Many Requests'' ''slow'',
      statusResponse 429 ''Too Many Requests'' ''slow'',
      statusResponse 429 ''Too Many Requests'' ''slow'',
      statusResponse 429 ''Too Many Requests'' ''slow'',
      statusResponse 429 ''Too Many Requests'' ''slow'', dataResponse (7::nat)] =
     Some \<lparr> outcome = Inl ''GraphQL request failed: 429 Too Many Requests slow'',
            attempts = 5, sleeps = [250, 500, 1000, 2000] \<rparr>"
proof -
  let ?busy = "\<lparr> status = 503, statusText = ''Service Unavailable'', body_text = ''busy'',
                 body_json = (Inl ''Unexpected token'' :: string + nat GraphQLResponse) \<rparr>"
  let ?slow = "\<lparr> status = 429, statusText = ''Too Many Requests'', body_text = ''slow'',
                 body_json = (Inl ''Unexpected token'' :: string + nat GraphQLResponse) \<rparr>"
  have r503: "503 \<in> RETRYABLE_STATUS" and r429: "429 \<in> RETRYABLE_STATUS"
    by (simp_all add: RETRYABLE_STATUS_def)
  have up2: "[0..<2] = [0, Suc 0]" and up4: "[0..<4] = [0, Suc 0, 2, 3]"
    by (simp_all add: upt_rec)
  \<comment> \<open>the single retry step\<close>
  have s: "status ?busy \<in> RETRYABLE_STATUS \<and> (1::nat) + 1 \<le> 4" using r503 by simp
  have step: "request_loop 4 (Responded ?busy # [dataResponse 7]) 1 [250] =
      request_loop 4 [dataResponse 7] (1 + 1) ([250] @ [250 * 2 ^ 1])"
    by (rule request_retries_retryable_status
          [of ?busy 1 4 "[dataResponse 7]" "[250]", THEN conjunct1, THEN mp, OF s])
  have fin: "request_loop 4 [dataResponse (7::nat)] (1 + 1) ([250] @ [250 * 2 ^ 1]) =
      Some \<lparr> outcome = Inr 7, attempts = 3, sleeps = [250, 500] \<rparr>"
    by (simp add: tryAttempt_dataResponse)
  from step fin have c1: "request_loop 4
      [statusResponse 503 ''Service Unavailable'' ''busy'', dataResponse (7::nat)] 1 [250] =
      Some \<lparr> outcome = Inr 7, attempts = 3, sleeps = [250, 500] \<rparr>"
    unfolding statusResponse_def by (rule trans)
  \<comment> \<open>two retryable answers within a configured maximum of 2\<close>
  have h2: "(\<forall>r\<in>set [?busy, ?slow]. status r \<in> RETRYABLE_STATUS) \<and>
            length [?busy, ?slow] \<le> (case Some 2 of None \<Rightarrow> 4 | Some m \<Rightarrow> m)"
    using r503 r429 by simp
  have c2: "request (Some 2)
     [statusResponse 503 ''Service Unavailable'' ''busy'',
      statusResponse 429 ''Too Many Requests'' ''slow'', dataResponse (7::nat)] =
     Some \<lparr> outcome = Inr 7, attempts = 3, sleeps = [250, 500] \<rparr>"
    using request_retries_retryable_status
          [where rs = "[?busy, ?slow]" and cfg = "Some 2" and d = "7::nat" and later = "[]",
           THEN conjunct2, THEN conjunct1, THEN mp, OF h2]
    by (simp add: statusResponse_def up2 del: request_loop.simps)
  \<comment> \<open>a third retryable answer exceeds the configured maximum of 2\<close>
  have h3: "(\<forall>r\<in>set [?busy, ?slow]. status r \<in> RETRYABLE_STATUS) \<and>
            status ?slow \<in> RETRYABLE_STATUS \<and>
            length [?busy, ?slow] = (case Some 2 of None \<Rightarrow> 4 | Some m \<Rightarrow> m)"
    using r503 r429 by simp
  have c3: "request (Some 2)
     [statusResponse 503 ''Service Unavailable'' ''busy'',
      statusResponse 429 ''Too Many Requests'' ''slow'',
      statusResponse 429 ''Too Many Requests'' ''slow'', dataResponse (7::nat)] =
     Some \<lparr> outcome = Inl ''GraphQL request failed: 429 Too Many Requests slow'',
            attempts = 3, sleeps = [250, 500] \<rparr>"
    using request_retries_retryable_status
          [where rs = "[?busy, ?slow]" and cfg = "Some 2" and final = ?slow
             and later = "[dataResponse (7::nat)]",
           THEN conjunct2, THEN conjunct2, THEN conjunct1, THEN mp, OF h3]
    by (simp add: statusResponse_def up2 showNat_429 del: request_loop.simps)
  \<comment> \<open>the default maximum is 4\<close>
  have h4: "(\<forall>r\<in>set [?slow, ?slow, ?slow, ?slow]. status r \<in> RETRYABLE_STATUS) \<and>
            status ?slow \<in> RETRYABLE_STATUS \<and>
            length [?slow, ?slow, ?slow, ?slow] = (case None of None \<Rightarrow> 4 | Some m \<Rightarrow> m)"
    using r429 by simp
  have c4: "request None
     [statusResponse 429 ''Too Many Requests'' ''slow'',
      statusResponse 429 ''Too Many Requests'' ''slow'',
      statusResponse 429 ''Too Many Requests'' ''slow'',
      statusResponse 429 ''Too Many Requests'' ''slow'',
      statusResponse 429 ''Too Many Requests'' ''slow'', dataResponse (7::nat)] =
     Some \<lparr> outcome = Inl ''GraphQL request failed: 429 Too Many Requests slow'',
            attempts = 5, sleeps = [250, 500, 1000, 2000] \<rparr>"
    using request_retries_retryable_status
          [where rs = "[?slow, ?slow, ?slow, ?slow]" and cfg = None and final = ?slow
             and later = "[dataResponse (7::nat)]",
           THEN conjunct2, THEN conjunct2, THEN conjunct1, THEN mp, OF h4]
    by (simp add: statusResponse_def up4 showNat_429 del: request_loop.simps)
  have le: "(1::nat) + 1 \<le> 4" by simp
  show ?thesis by (intro conjI) (rule r503 r429 le c1 c2 c3 c4)+
qed

text \<open>
  Claim C3, on the code. A 404 answer, and a 200 answer with a GraphQL \<open>errors\<close> array,
  are both thrown inside the \<open>try\<close> block, so the \<open>catch\<close> of the loop receives them,
  sleeps and starts another attempt while the counter has not exceeded the maximum: a
  following 200 answer with data makes \<open>request\<close> succeed at the second attempt, and
  five 404 answers in a row are needed before the error (which then carries the response
  body) is surfaced.
\<close>

theorem request_retries_nonretryable_failures:
  "request None [statusResponse 404 ''Not Found'' ''no such report'', dataResponse (1::nat)] =
     Some \<lparr> outcome = Inr 1, attempts = 2, sleeps = [250] \<rparr> \<and>
   request None [errorsResponse [''Unknown field'', ''Syntax error''], dataResponse (1::nat)] =
     Some \<lparr> outcome = Inr 1, attempts = 2, sleeps = [250] \<rparr> \<and>
   request None
     [statusResponse 404 ''Not Found'' ''no such report'',
      statusResponse 404 ''Not Found'' ''no such report'',
      statusResponse 404 ''Not Found'' ''no such report'',
      statusResponse 404 ''Not Found'' ''no such report'',
      statusResponse 404 ''Not Found'' ''no such report''] =
     Some \<lparr> outcome = (Inl ''GraphQL request failed: 404 Not Found no such report'' :: string + nat),
            attempts = 5, sleeps = [250, 500, 1000, 2000] \<rparr>"
  by (simp add: request_def DEFAULT_RETRIES_def tryAttempt_404 tryAttempt_errorsResponse
      tryAttempt_dataResponse backoffMs_def)

subsection \<open>\<open>getAllEvents\<close>\<close>

lemma getAllEvents_loop_served:
  "servedPages lastPage ps cursor \<Longrightarrow>
   getAllEvents_loop params (map Page ps @ later) cursor all =
     Some (Inr (all @ concat (map pageEvents ps)))"
proof (induction ps arbitrary: cursor all)
  case Nil
  then show ?case by simp
next
  case (Cons p ps)
  note prems = Cons.prems and IH = Cons.IH
  show ?case
  proof (cases ps)
    case Nil
    with prems show ?thesis by simp
  next
    case (Cons q qs)
    with prems obtain n where n: "nextPageTimestamp p = Some n"
      and np: "\<not> lastPage p cursor" and rest: "servedPages lastPage ps n"
      by (auto split: option.splits)
    from IH [OF rest, of "all @ pageEvents p"] n np show ?thesis by simp
  qed
qed

lemma getAllEvents_loop_only_served:
  "getAllEvents_loop params (map Page ps) cursor all = Some (Inr evs) \<Longrightarrow>
   \<exists>k. servedPages lastPage (take k ps) cursor \<and>
       evs = all @ concat (map pageEvents (take k ps))"
proof (induction ps arbitrary: cursor all)
  case Nil
  then show ?case by simp
next
  case (Cons p ps)
  show ?case
  proof (cases "lastPage p cursor")
    case True
    with Cons.prems have "evs = all @ pageEvents p" by simp
    with True have "servedPages lastPage (take 1 (p # ps)) cursor \<and>
       evs = all @ concat (map pageEvents (take 1 (p # ps)))" by simp
    then show ?thesis by blast
  next
    case False
    then obtain n where n: "nextPageTimestamp p = Some n"
      by (auto simp: lastPage_def split: option.splits)
    with False Cons.prems
    have "getAllEvents_loop params (map Page ps) n (all @ pageEvents p) = Some (Inr evs)" by simp
    from Cons.IH [OF this] obtain k where
      k: "servedPages lastPage (take k ps) n"
      and e: "evs = (all @ pageEvents p) @ concat (map pageEvents (take k ps))" by blast
    from k obtain q qs where q: "take k ps = q # qs" by (cases "take k ps") auto
    with k False n have "servedPages lastPage (take (Suc k) (p # ps)) cursor" by simp
    moreover from e have "evs = all @ concat (map pageEvents (take (Suc k) (p # ps)))" by simp
    ultimately show ?thesis by blast
  qed
qed

lemma lastPage_nonneg: "0 \<le> cursor \<Longrightarrow> lastPage p cursor = spec_lastPage p cursor"
  by (auto simp: lastPage_def spec_lastPage_def split: option.splits)

lemma servedPages_nonneg:
  "0 \<le> cursor \<Longrightarrow> servedPages lastPage ps cursor = servedPages spec_lastPage ps cursor"
proof (induction ps arbitrary: cursor)
  case Nil
  then show ?case by simp
next
  case (Cons p ps)
  note prems = Cons.prems and IH = Cons.IH
  show ?case
  proof (cases ps)
    case Nil
    with prems show ?thesis by (simp add: lastPage_nonneg)
  next
    case (Cons q qs)
    show ?thesis
    proof (cases "nextPageTimestamp p")
      case None
      with Cons show ?thesis by simp
    next
      case (Some n)
      show ?thesis
      proof (cases "spec_lastPage p cursor")
        case True
        with Cons prems show ?thesis by (simp add: lastPage_nonneg)
      next
        case False
        with Some prems have "0 \<le> n" by (simp add: spec_lastPage_def)
        from IH [OF this] Cons Some prems show ?thesis
          by (simp add: lastPage_nonneg)
      qed
    qed
  qed
qed

text \<open>
  Claim C1. The start time of a request is an offset into the report, so it is not
  negative. Then \<open>getAllEvents\<close> stops requesting pages exactly when a page's
  \<open>nextPageTimestamp\<close> is null or absent, or is not strictly greater than the cursor of
  its request: when the upstream serves pages \<open>ps\<close> of which every page but the last has
  a next cursor strictly ahead of its request and the last has none or one that is not
  ahead, the loop terminates after these pages, whatever the upstream would serve
  later, and returns the concatenation of their data arrays in page order; conversely
  every result is the concatenation of such a prefix of the pages served.
\<close>

theorem getAllEvents_concatenates_served_pages:
  "0 \<le> p_startTime params \<longrightarrow>
     (servedPages spec_lastPage ps (p_startTime params) \<longrightarrow>
        getAllEvents params (map Page ps @ later) = Some (Inr (concat (map pageEvents ps)))) \<and>
     (getAllEvents params (map Page ps) = Some (Inr evs) \<longrightarrow>
        (\<exists>k. servedPages spec_lastPage (take k ps) (p_startTime params) \<and>
             evs = concat (map pageEvents (take k ps))))"
proof (intro impI conjI)
  assume nn: "0 \<le> p_startTime params"
    and "servedPages spec_lastPage ps (p_startTime params)"
  then have "servedPages lastPage ps (p_startTime params)" by (simp add: servedPages_nonneg)
  from getAllEvents_loop_served [OF this, of params later "[]"]
  show "getAllEvents params (map Page ps @ later) = Some (Inr (concat (map pageEvents ps)))"
    by (simp add: getAllEvents_def)
next
  assume nn: "0 \<le> p_startTime params"
    and "getAllEvents params (map Page ps) = Some (Inr evs)"
  then have "getAllEvents_loop params (map Page ps) (p_startTime params) [] = Some (Inr evs)"
    by (simp add: getAllEvents_def)
  from getAllEvents_loop_only_served [OF this] obtain k where
    "servedPages lastPage (take k ps) (p_startTime params)"
    and e: "evs = concat (map pageEvents (take k ps))" by auto
  with nn have "servedPages spec_lastPage (take k ps) (p_startTime params)"
    by (simp add: servedPages_nonneg)
  with e show "\<exists>k. servedPages spec_lastPage (take k ps) (p_startTime params) \<and>
           evs = concat (map pageEvents (take k ps))" by blast
qed

theorem getAllEvents_concatenates_served_pages_witness:
  "0 \<le> p_startTime (eventsParams 0) \<and>
   servedPages spec_lastPage
     [eventsPage [castBy 1 0] (Some 10), eventsPage [castBy 1 12] (Some 10)] (p_startTime (eventsParams 0)) \<and>
   getAllEvents (eventsParams 0)
     [Page (eventsPage [castBy 1 0] (Some 10)), Page (eventsPage [castBy 1 12] (Some 10)),
      Page (eventsPage [castBy 1 20] None)] =
     Some (Inr [castBy 1 0, castBy 1 12])"
proof -
  let ?ps = "[eventsPage [castBy 1 0] (Some 10), eventsPage [castBy 1 12] (Some 10)]"
  have n: "0 \<le> p_startTime (eventsParams 0)" by (simp add: eventsParams_def)
  have s: "servedPages spec_lastPage ?ps (p_startTime (eventsParams 0))"
    by (simp add: spec_lastPage_def eventsPage_def eventsParams_def)
  have "getAllEvents (eventsParams 0) (map Page ?ps @ [Page (eventsPage [castBy 1 20] None)]) =
          Some (Inr (concat (map pageEvents ?ps)))"
    by (rule getAllEvents_concatenates_served_pages
        [of "eventsParams 0" ?ps "[Page (eventsPage [castBy 1 20] None)]",
         THEN mp, OF n, THEN conjunct1, THEN mp, OF s])
  then have "getAllEvents (eventsParams 0)
     [Page (eventsPage [castBy 1 0] (Some 10)), Page (eventsPage [castBy 1 12] (Some 10)),
      Page (eventsPage [castBy 1 20] None)] = Some (Inr [castBy 1 0, castBy 1 12])"
    by (simp add: pageEvents_def eventsPage_def)
  with n s show ?thesis by (intro conjI)
qed

text \<open>
  Outside this domain the break condition of the code and that of the specification differ: with a negative start time a page
  whose \<open>nextPageTimestamp\<close> is 0 is ahead of the cursor, and \<open>!events.nextPageTimestamp\<close>
  holds for 0, so the loop returns after that page.
\<close>

lemma getAllEvents_negative_start_stops_at_zero:
  "\<not> spec_lastPage (eventsPage [castBy 1 (-500)] (Some 0)) (p_startTime (eventsParams (-1000))) \<and>
   getAllEvents (eventsParams (-1000))
     [Page (eventsPage [castBy 1 (-500)] (Some 0)), Page (eventsPage [castBy 1 5] None)] =
     Some (Inr [castBy 1 (-500)])"
  by (simp add: spec_lastPage_def lastPage_def eventsPage_def eventsParams_def getAllEvents_def
      pageEvents_def)

subsection \<open>Ranking rows\<close>

lemma isReportCode_alnum: "isReportCode s \<Longrightarrow> s \<noteq> [] \<and> list_all isAlnum s"
  by (auto simp: isReportCode_def)

lemma reportsMatchAt_alnum: "reportsMatchAt s = Some m \<Longrightarrow> m \<noteq> [] \<and> list_all isAlnum m"
proof -
  assume a: "reportsMatchAt s = Some m"
  have "list_all isAlnum (takeWhile isAlnum (drop 9 s))"
    unfolding list_all_iff by (blast dest: set_takeWhileD)
  with a show ?thesis unfolding reportsMatchAt_def by (auto split: if_splits)
qed

lemma matchReports_alnum: "matchReports s = Some m \<Longrightarrow> m \<noteq> [] \<and> list_all isAlnum m"
  by (induction s) (auto split: option.splits dest: reportsMatchAt_alnum)

lemma parseReportCode_alnum:
  assumes "parseReportCode raw = Some c"
  shows "c \<noteq> [] \<and> list_all isAlnum c"
proof -
  let ?report = "getProp raw ''report''"
  let ?nestedVal = "orElse (orElse (orElse (getProp ?report ''code'') (getProp ?report ''reportCode''))
                       (getProp ?report ''id'')) (getProp ?report ''reportID'')"
  let ?direct = "orElse (orElse (orElse (orElse (orElse (orElse (orElse
                      (getProp ?report ''code'')
                      (getProp raw ''reportCode''))
                      (getProp raw ''code''))
                      (getProp ?report ''reportCode''))
                      (ifString ?report))
                      (ifString (getProp raw ''reportURL'')))
                      (ifString (getProp raw ''reportUrl'')))
                      (ifString (getProp raw ''url''))"
  from assms consider
      (nested) s where "isReportCode (trim s)" "c = trim s"
    | (matched) s where "matchReports s = Some c"
    | (direct) "isReportCode c"
    unfolding parseReportCode_def Let_def
    by (auto split: if_splits json.splits option.splits)
  then show ?thesis
  proof cases
    case nested
    then show ?thesis by (simp add: isReportCode_alnum)
  next
    case matched
    then show ?thesis by (rule matchReports_alnum)
  next
    case direct
    then show ?thesis by (rule isReportCode_alnum)
  qed
qed

lemma parseFightId_finite: "parseFightId B raw = Some n \<Longrightarrow> isFinite n"
  unfolding parseFightId_def Let_def
  by (auto split: json.splits if_splits)

lemma normalizeRanking_SomeD:
  assumes "normalizeRanking B raw = Some e"
  shows "\<exists>code fid. parseReportCode raw = Some code \<and> parseFightId B raw = Some fid \<and>
           e = rankingEntry B raw code fid"
  using assms unfolding normalizeRanking_def by (auto split: option.splits if_splits)

lemma rankingEntry_sel:
  "reportCode (rankingEntry B raw code fid) = code"
  "fightID (rankingEntry B raw code fid) = fid"
  "e_kill (rankingEntry B raw code fid) \<noteq> None"
  by (simp_all add: rankingEntry_def Let_def)

text \<open>
  An entry \<open>normalizeRanking\<close> returns has a report code that is a non-empty run of
  letters and digits, a finite fight id and a kill flag.
\<close>

lemma normalizeRanking_known_pair:
  assumes "normalizeRanking B raw = Some e"
  shows "reportCode e \<noteq> [] \<and> list_all isAlnum (reportCode e) \<and> isFinite (fightID e) \<and>
         e_kill e \<noteq> None"
proof -
  from normalizeRanking_SomeD [OF assms] obtain code fid where
    c: "parseReportCode raw = Some code" and f: "parseFightId B raw = Some fid"
    and e: "e = rankingEntry B raw code fid" by blast
  from parseReportCode_alnum [OF c] parseFightId_finite [OF f] e show ?thesis
    by (simp add: rankingEntry_sel)
qed

lemma isAlnum_not_space: "isAlnum c \<Longrightarrow> \<not> isSpace c"
  by (auto simp: isAlnum_def isSpace_def)

lemma isAlnum_lower_not_slash: "isAlnum c \<Longrightarrow> toLowerChar c \<noteq> CHR ''/''"
  by (auto simp: isAlnum_def toLowerChar_def)

lemma trim_alnum:
  assumes "list_all isAlnum s"
  shows "trim s = s"
proof (cases s)
  case Nil
  then show ?thesis by (simp add: trim_def)
next
  case (Cons c cs)
  from assms Cons have "\<not> isSpace (hd s)" by (simp add: isAlnum_not_space)
  then have a: "dropWhile isSpace s = s" by (simp add: dropWhile_eq_self_iff)
  from Cons have ne: "s \<noteq> []" by simp
  then have "last s \<in> set s" by simp
  with assms have "\<not> isSpace (last s)" by (auto simp: list_all_iff isAlnum_not_space)
  with ne have "\<not> isSpace (hd (rev s))" by (simp add: hd_rev)
  then have "dropWhile isSpace (rev s) = rev s" by (simp add: dropWhile_eq_self_iff)
  with a show ?thesis by (simp add: trim_def)
qed

lemma reportsMatchAt_alnum_None: "isAlnum c \<Longrightarrow> reportsMatchAt (c # cs) = None"
  by (simp add: reportsMatchAt_def toLowerCase_def isAlnum_lower_not_slash)

lemma matchReports_alnum_None: "list_all isAlnum s \<Longrightarrow> matchReports s = None"
  by (induction s) (simp_all add: reportsMatchAt_alnum_None)

text \<open>Reading the object of an entry: its properties, and the paths of \<open>metricFields\<close>.\<close>

lemma getProp_entryObject:
  "getProp (entryObject e) ''report'' = JUndefined"
  "getProp (entryObject e) ''reportCode'' = JStr (reportCode e)"
  "getProp (entryObject e) ''fightID'' = JNum (fightID e)"
  "getProp (entryObject e) ''rank'' = JNum (rank e)"
  "getProp (entryObject e) ''amount'' = JNum (amount e)"
  "getProp (entryObject e) ''bracketData'' = JUndefined"
  "getProp (entryObject e) ''character'' = JUndefined"
  "getProp (entryObject e) ''name'' = JUndefined"
  "getProp (entryObject e) ''server'' = JUndefined"
  "getProp (entryObject e) ''class'' = JUndefined"
  "getProp (entryObject e) ''spec'' = JUndefined"
  by (simp_all add: entryObject_def getProp_def)

lemma getProp_JUndefined: "getProp JUndefined k = JUndefined"
  by (simp add: getProp_def)

lemma toLowerCase_entry_keys:
  "toLowerCase ''rank'' = ''rank''"
  "toLowerCase ''amount'' = ''amount''"
  "toLowerCase ''reportCode'' = ''reportcode''"
  "toLowerCase ''fightID'' = ''fightid''"
  "toLowerCase ''bestPercent'' = ''bestpercent''"
  "toLowerCase ''highestRdps'' = ''highestrdps''"
  "toLowerCase ''kill'' = ''kill''"
  "toLowerCase ''fastestSec'' = ''fastestsec''"
  "toLowerCase ''medianRdps'' = ''medianrdps''"
  "toLowerCase ''characterName'' = ''charactername''"
  "toLowerCase ''serverName'' = ''servername''"
  "toLowerCase ''region'' = ''region''"
  "toLowerCase ''className'' = ''classname''"
  "toLowerCase ''specName'' = ''specname''"
  by (simp_all add: toLowerCase_def toLowerChar_def)

lemma toLowerCase_paths:
  "toLowerCase ''rankPercent'' = ''rankpercent''"
  "toLowerCase ''percentile'' = ''percentile''"
  "toLowerCase ''rDPS'' = ''rdps''"
  "toLowerCase ''rdps'' = ''rdps''"
  "toLowerCase ''fastest'' = ''fastest''"
  "toLowerCase ''duration'' = ''duration''"
  "toLowerCase ''median'' = ''median''"
  "toLowerCase ''isKill'' = ''iskill''"
  "toLowerCase ''success'' = ''success''"
  by (simp_all add: toLowerCase_def toLowerChar_def)

lemma readPathCI_entry_absent:
  "readPathCI (entryObject e) [''rankPercent''] = JUndefined"
  "readPathCI (entryObject e) [''percentile''] = JUndefined"
  "readPathCI (entryObject e) [''rDPS''] = JUndefined"
  "readPathCI (entryObject e) [''rdps''] = JUndefined"
  "readPathCI (entryObject e) [''fastest''] = JUndefined"
  "readPathCI (entryObject e) [''duration''] = JUndefined"
  "readPathCI (entryObject e) [''median''] = JUndefined"
  "readPathCI (entryObject e) [''isKill''] = JUndefined"
  "readPathCI (entryObject e) [''success''] = JUndefined"
  by (simp_all add: entryObject_def truthy_def typeofObject_def toLowerCase_entry_keys
      toLowerCase_paths)

lemma readPathCI_entry_own:
  "readPathCI (entryObject e) [''bestPercent''] = optNum (bestPercent e)"
  "readPathCI (entryObject e) [''amount''] = JNum (amount e)"
  "readPathCI (entryObject e) [''kill''] = optBool (e_kill e)"
  "readPathCI (entryObject e) [''medianRdps''] = optNum (medianRdps e)"
  by (simp_all add: entryObject_def truthy_def typeofObject_def)

lemma readPathCI_JUndefined: "readPathCI JUndefined (p # ps) = JUndefined"
  by (simp add: truthy_def)

lemma pickNumber_JUndefined:
  "pickNumber B JUndefined [[''rankPercent''], [''percentile''], [''bestPercent''],
                            [''historicalPercent'']] = None"
  "pickNumber B JUndefined [[''rDPS'', ''max''], [''rdps'', ''max''], [''rDPS''], [''rdps''],
                            [''max'']] = None"
  "pickNumber B JUndefined [[''fastest''], [''duration'', ''min''],
                            [''duration'', ''fastest''], [''minDuration'']] = None"
  "pickNumber B JUndefined [[''rDPS'', ''median''], [''rdps'', ''median''], [''rDPS'', ''avg''],
                            [''rdps'', ''avg''], [''median'']] = None"
  "pickBoolean JUndefined [[''kill''], [''isKill''], [''success'']] = None"
  by (simp_all add: readPathCI_JUndefined del: readPathCI.simps)

lemma entry_bestPercent:
  "pickNumber B (entryObject e) [[''rankPercent''], [''percentile''], [''bestPercent'']] = bestPercent e"
  by (cases "bestPercent e") (simp_all add: readPathCI_entry_absent readPathCI_entry_own optNum_def del: readPathCI.simps)

lemma entry_highestRdps:
  "pickNumber B (entryObject e) [[''rDPS''], [''rdps''], [''amount'']] =
     (case amount e of Fin r \<Rightarrow> Some r | _ \<Rightarrow> None)"
  by (cases "amount e") (simp_all add: readPathCI_entry_absent readPathCI_entry_own del: readPathCI.simps)

lemma entry_kill:
  "pickBoolean (entryObject e) [[''kill''], [''isKill''], [''success'']] = e_kill e"
  by (cases "e_kill e") (simp_all add: readPathCI_entry_absent readPathCI_entry_own optBool_def del: readPathCI.simps)

lemma entry_fastest:
  "pickNumber B (entryObject e) [[''fastest''], [''duration'']] = None"
  by (simp add: readPathCI_entry_absent del: readPathCI.simps)

lemma entry_medianRdps:
  "pickNumber B (entryObject e) [[''medianRdps''], [''median'']] = medianRdps e"
  by (cases "medianRdps e") (simp_all add: readPathCI_entry_absent readPathCI_entry_own optNum_def del: readPathCI.simps)

lemma parseBracketData_entry: "parseBracketData B (entryObject e) = JUndefined"
  by (simp add: parseBracketData_def getProp_entryObject truthy_def)

lemma metricFields_entry:
  "metricFields B (entryObject e) =
     \<lparr> m_bestPercent = bestPercent e,
       m_highestRdps = (case amount e of Fin r \<Rightarrow> Some r | _ \<Rightarrow> None),
       m_kill = (case e_kill e of None \<Rightarrow> True | Some b \<Rightarrow> b),
       m_fastestSec = None,
       m_medianRdps = medianRdps e \<rparr>"
  by (simp add: metricFields_def parseBracketData_entry pickNumber_JUndefined entry_bestPercent
      entry_highestRdps entry_kill entry_fastest entry_medianRdps orOpt_def toSeconds_def
      del: pickNumber.simps pickBoolean.simps split: option.splits)

lemma rankingEntry_entry:
  "rankingEntry B (entryObject e) code fid =
     \<lparr> rank = rank e, amount = amount e, reportCode = code, fightID = fid,
       bestPercent = bestPercent e,
       highestRdps = (case amount e of Fin r \<Rightarrow> Some r | _ \<Rightarrow> None),
       e_kill = Some (case e_kill e of None \<Rightarrow> True | Some b \<Rightarrow> b),
       fastestSec = None,
       medianRdps = medianRdps e,
       characterName = JUndefined, serverName = JUndefined, region = JUndefined,
       className = None, specName = None \<rparr>"
  by (simp add: rankingEntry_def metricFields_entry getProp_entryObject getProp_JUndefined
      orElse_def nullish_def js_Number_def stringOfFirstTruthy_def truthy_def)

lemma parseReportCode_entry:
  assumes "reportCode e \<noteq> []" and "list_all isAlnum (reportCode e)"
  shows "parseReportCode (entryObject e) =
           (if 8 \<le> length (reportCode e) then Some (reportCode e) else None)"
  using assms
  by (simp add: parseReportCode_def getProp_entryObject getProp_JUndefined truthy_def
      orElse_def nullish_def ifString_def trim_alnum matchReports_alnum_None isReportCode_def)

lemma parseFightId_entry:
  "isFinite (fightID e) \<Longrightarrow> parseFightId B (entryObject e) = Some (fightID e)"
  by (simp add: parseFightId_def getProp_entryObject orElse_def nullish_def)

lemma normalizeRanking_rawRow: "normalizeRanking noBuiltins rawRow = Some rawRowEntry"
  by code_simp

lemma normalizeRanking_rawUrlRow: "normalizeRanking noBuiltins rawUrlRow = Some rawUrlRowEntry"
  by code_simp

lemma normalizeRanking_entryObject:
  assumes "normalizeRanking B raw = Some e"
  shows "normalizeRanking B (entryObject e) =
     (if 8 \<le> length (reportCode e)
      then Some (e \<lparr> highestRdps := (case amount e of Fin r \<Rightarrow> Some r | _ \<Rightarrow> None),
                     fastestSec := None,
                     characterName := JUndefined, serverName := JUndefined, region := JUndefined,
                     className := None, specName := None \<rparr>)
      else None)"
proof -
  from normalizeRanking_known_pair [OF assms]
  have ne: "reportCode e \<noteq> []" and al: "list_all isAlnum (reportCode e)"
    and fin: "isFinite (fightID e)" and k: "e_kill e \<noteq> None" by simp_all
  from k obtain b where b: "e_kill e = Some b" by auto
  show ?thesis
    by (simp add: normalizeRanking_def parseReportCode_entry [OF ne al] parseFightId_entry [OF fin]
        rankingEntry_entry ne b)
qed

text \<open>
  Claim C4, as amended. Applying \<open>normalizeRanking\<close> to the entry it produced is
  rejected when the report code has fewer than 8 characters; otherwise it yields an entry
  with the same rank, amount, report code, fight id, best percent, kill flag and median
  rDPS, in which the highest rDPS is the amount (when that is finite) and the fastest
  time and the character, server, region, class and spec descriptors are undefined.
\<close>

theorem normalizeRanking_twice:
  "normalizeRanking B raw = Some e \<longrightarrow>
   normalizeRanking B (entryObject e) =
     (if 8 \<le> length (reportCode e)
      then Some (e \<lparr> highestRdps := (case amount e of Fin r \<Rightarrow> Some r | _ \<Rightarrow> None),
                     fastestSec := None,
                     characterName := JUndefined, serverName := JUndefined, region := JUndefined,
                     className := None, specName := None \<rparr>)
      else None)"
  by (rule impI) (rule normalizeRanking_entryObject)

theorem normalizeRanking_twice_witness:
  "normalizeRanking noBuiltins rawRow = Some rawRowEntry \<and>
   normalizeRanking noBuiltins (entryObject rawRowEntry) =
     Some (rawRowEntry \<lparr> highestRdps := Some 1200, fastestSec := None,
                          characterName := JUndefined, className := None, specName := None \<rparr>)"
proof -
  from normalizeRanking_twice [of noBuiltins rawRow rawRowEntry] normalizeRanking_rawRow
  have "normalizeRanking noBuiltins (entryObject rawRowEntry) =
     (if 8 \<le> length (reportCode rawRowEntry)
      then Some (rawRowEntry \<lparr> highestRdps := (case amount rawRowEntry of Fin r \<Rightarrow> Some r | _ \<Rightarrow> None),
                     fastestSec := None,
                     characterName := JUndefined, serverName := JUndefined, region := JUndefined,
                     className := None, specName := None \<rparr>)
      else None)" by (rule mp)
  then show ?thesis by (simp add: normalizeRanking_rawRow) (simp add: rawRowEntry_def)
qed

text \<open>
  Claim C4 as stated fails. For a row with \<open>rDPS\<close> 1500, \<open>amount\<close> 1200, a duration
  and a name, the entry re-normalized differs from the entry (highest rDPS 1200, no
  fastest time, no descriptors); and the entry of a row whose report URL carries the
  five-character code \<open>abc12\<close> is rejected when normalized again.
\<close>

theorem normalizeRanking_not_idempotent_counterexample:
  "normalizeRanking noBuiltins rawRow = Some rawRowEntry \<and>
   normalizeRanking noBuiltins (entryObject rawRowEntry) \<noteq> Some rawRowEntry \<and>
   normalizeRanking noBuiltins rawUrlRow = Some rawUrlRowEntry \<and>
   normalizeRanking noBuiltins (entryObject rawUrlRowEntry) = None"
proof -
  have "normalizeRanking noBuiltins (entryObject rawRowEntry) \<noteq> Some rawRowEntry"
    unfolding normalizeRanking_entryObject [OF normalizeRanking_rawRow]
    by (simp add: rawRowEntry_def)
  moreover have "normalizeRanking noBuiltins (entryObject rawUrlRowEntry) = None"
    unfolding normalizeRanking_entryObject [OF normalizeRanking_rawUrlRow]
    by (simp add: rawUrlRowEntry_def)
  ultimately show ?thesis by (simp add: normalizeRanking_rawRow normalizeRanking_rawUrlRow)
qed

subsection \<open>\<open>getRankings\<close>\<close>

lemma firstPass_entries:
  "firstPass B rows entries unresolved = (es, us) \<Longrightarrow> e \<in> set es \<Longrightarrow>
   e \<in> set entries \<or> (\<exists>row\<in>set rows. normalizeRanking B row = Some e)"
proof (induction rows arbitrary: entries unresolved)
  case Nil
  then show ?case by simp
next
  case (Cons row rows)
  note prems = Cons.prems and IH = Cons.IH
  show ?case
  proof (cases "normalizeRanking B row")
    case (Some n)
    with prems(1) have "firstPass B rows (entries @ [n]) unresolved = (es, us)" by simp
    from IH [OF this prems(2)] Some show ?thesis by auto
  next
    case None
    show ?thesis
    proof (cases "parseReportCode row")
      case N2: None
      with None prems(1) have "firstPass B rows entries unresolved = (es, us)" by simp
      from IH [OF this prems(2)] show ?thesis by auto
    next
      case (Some code)
      show ?thesis
      proof (cases "code = []")
        case True
        with None Some prems(1) have "firstPass B rows entries unresolved = (es, us)" by simp
        from IH [OF this prems(2)] show ?thesis by auto
      next
        case False
        with None Some prems(1)
        have "firstPass B rows entries (unresolved @ [(row, code)]) = (es, us)" by simp
        from IH [OF this prems(2)] show ?thesis by auto
      qed
    qed
  qed
qed

lemma firstPass_unresolved:
  "firstPass B rows entries unresolved = (es, us) \<Longrightarrow> u \<in> set us \<Longrightarrow>
   u \<in> set unresolved \<or>
   (fst u \<in> set rows \<and> normalizeRanking B (fst u) = None \<and>
    parseReportCode (fst u) = Some (snd u) \<and> snd u \<noteq> [])"
proof (induction rows arbitrary: entries unresolved)
  case Nil
  then show ?case by simp
next
  case (Cons row rows)
  note prems = Cons.prems and IH = Cons.IH
  show ?case
  proof (cases "normalizeRanking B row")
    case (Some n)
    with prems(1) have "firstPass B rows (entries @ [n]) unresolved = (es, us)" by simp
    from IH [OF this prems(2)] show ?thesis by auto
  next
    case None
    show ?thesis
    proof (cases "parseReportCode row")
      case N2: None
      with None prems(1) have "firstPass B rows entries unresolved = (es, us)" by simp
      from IH [OF this prems(2)] show ?thesis by auto
    next
      case (Some code)
      show ?thesis
      proof (cases "code = []")
        case True
        with None Some prems(1) have "firstPass B rows entries unresolved = (es, us)" by simp
        from IH [OF this prems(2)] show ?thesis by auto
      next
        case False
        with None Some prems(1)
        have "firstPass B rows entries (unresolved @ [(row, code)]) = (es, us)" by simp
        from IH [OF this prems(2)] None Some False show ?thesis by auto
      qed
    qed
  qed
qed

lemma secondPass_entries:
  "e \<in> set (secondPass B fetchFights enc items entries) \<Longrightarrow>
   e \<in> set entries \<or> (\<exists>u\<in>set items. repairRow B fetchFights enc (fst u) (snd u) = Some e)"
proof (induction items arbitrary: entries)
  case Nil
  then show ?case by simp
next
  case (Cons item items)
  note prems = Cons.prems and IH = Cons.IH
  obtain row code where item: "item = (row, code)" by (cases item)
  show ?case
  proof (cases "repairRow B fetchFights enc row code")
    case None
    with prems item have "e \<in> set (secondPass B fetchFights enc items entries)" by simp
    from IH [OF this] show ?thesis by auto
  next
    case (Some entry)
    with prems item have "e \<in> set (secondPass B fetchFights enc items (entries @ [entry]))" by simp
    from IH [OF this] Some item show ?thesis by auto
  qed
qed

lemma resolveRankingRows_spec_rowYields:
  assumes "e \<in> set (resolveRankingRows B fetchFights params rows)"
  shows "\<exists>row\<in>set rows. spec_rowYields B fetchFights (rp_encounterID params) row e"
proof -
  obtain es us where fp: "firstPass B rows [] [] = (es, us)" by (cases "firstPass B rows [] []")
  have norm: "\<exists>row\<in>set rows. spec_rowYields B fetchFights (rp_encounterID params) row e" if "e \<in> set es"
  proof -
    from firstPass_entries [OF fp that] obtain row where
      "row \<in> set rows" "normalizeRanking B row = Some e" by auto
    moreover from this have "spec_rowYields B fetchFights (rp_encounterID params) row e"
      by (simp add: spec_rowYields_def)
    ultimately show ?thesis by blast
  qed
  show ?thesis
  proof (cases "length us = 0")
    case True
    with assms fp have "e \<in> set es" by (simp add: resolveRankingRows_def)
    then show ?thesis by (rule norm)
  next
    case False
    with assms fp have "e \<in> set (secondPass B fetchFights (rp_encounterID params) us es)"
      by (simp add: resolveRankingRows_def)
    from secondPass_entries [OF this] show ?thesis
    proof
      assume "e \<in> set es" then show ?thesis by (rule norm)
    next
      assume "\<exists>u\<in>set us. repairRow B fetchFights (rp_encounterID params) (fst u) (snd u) = Some e"
      then obtain u where u: "u \<in> set us"
        and r: "repairRow B fetchFights (rp_encounterID params) (fst u) (snd u) = Some e" by blast
      from firstPass_unresolved [OF fp u]
      have "fst u \<in> set rows \<and> normalizeRanking B (fst u) = None \<and>
            parseReportCode (fst u) = Some (snd u) \<and> snd u \<noteq> []" by simp
      with r have "spec_rowYields B fetchFights (rp_encounterID params) (fst u) e"
        by (simp add: spec_rowYields_def)
      moreover from firstPass_unresolved [OF fp u] have "fst u \<in> set rows" by simp
      ultimately show ?thesis by blast
    qed
  qed
qed

lemma repairRow_known_pair:
  "repairRow B fetchFights enc row code = Some e \<Longrightarrow> reportCode e = code \<and> isFinite (fightID e)"
  unfolding repairRow_def by (auto split: option.splits simp: rankingEntry_sel)

lemma spec_rowYields_known_pair:
  "spec_rowYields B fetchFights enc row e \<Longrightarrow> reportCode e \<noteq> [] \<and> isFinite (fightID e)"
  unfolding spec_rowYields_def
  by (auto split: option.splits dest: normalizeRanking_known_pair repairRow_known_pair)

lemma set_normalizeAndSortRankings: "set (normalizeAndSortRankings es params) \<subseteq> set es"
  by (auto simp: normalizeAndSortRankings_def set_js_sort)

lemma set_sliceTo: "set (sliceTo n xs) \<subseteq> set xs"
  by (simp add: sliceTo_def set_take_subset)

lemma getRankings_finish_subset:
  "getRankings_finish B fetchFights params rows = Inr result \<Longrightarrow>
   set (rankings result) \<subseteq> set (resolveRankingRows B fetchFights params rows)"
  unfolding getRankings_finish_def Let_def
  using set_sliceTo set_normalizeAndSortRankings
  by (fastforce split: if_splits simp: rankingsResult_def)

lemma getRankings_finishRelaxed_subset:
  "getRankings_finishRelaxed B fetchFights params rows = Inr result \<Longrightarrow>
   set (rankings result) \<subseteq> set (resolveRankingRows B fetchFights params rows)"
  unfolding getRankings_finishRelaxed_def Let_def
  using set_sliceTo set_normalizeAndSortRankings
  by (fastforce split: if_splits simp: rankingsResult_def)

lemma ex_norm_repairable: "normalizeRanking noBuiltins repairableRow = None"
  by code_simp

lemma ex_code_repairable: "parseReportCode repairableRow = Some ''ZyXw9876vUtS5432''"
  by code_simp

lemma ex_norm_private: "normalizeRanking noBuiltins privateRow = None"
  by code_simp

lemma ex_code_private: "parseReportCode privateRow = Some ''PrIvAtE000000001''"
  by code_simp

lemma ex_norm_codeless: "normalizeRanking noBuiltins codelessRow = None"
  by code_simp

lemma ex_code_codeless: "parseReportCode codelessRow = None"
  by code_simp

lemma ex_firstPass:
  "firstPass noBuiltins exampleRows [] [] =
     ([rawRowEntry], [(repairableRow, ''ZyXw9876vUtS5432''), (privateRow, ''PrIvAtE000000001'')])"
  by (simp add: exampleRows_def normalizeRanking_rawRow ex_norm_repairable ex_code_repairable
      ex_norm_private ex_code_private ex_norm_codeless ex_code_codeless)

lemma ex_repair_repairable:
  "repairRow noBuiltins exampleFetch 101 repairableRow ''ZyXw9876vUtS5432'' = Some repairedEntry"
  by code_simp

lemma ex_repair_private:
  "repairRow noBuiltins exampleFetch 101 privateRow ''PrIvAtE000000001'' = None"
  by (simp add: repairRow_def exampleFetch_def)

lemma ex_resolve:
  "resolveRankingRows noBuiltins exampleFetch exampleParams exampleRows = [rawRowEntry, repairedEntry]"
  by (simp add: resolveRankingRows_def ex_firstPass exampleParams_def ex_repair_repairable
      ex_repair_private)

lemma ex_sort:
  "normalizeAndSortRankings [rawRowEntry, repairedEntry] exampleParams = [rawRowEntry, repairedEntry]"
  by code_simp

lemma ex_params:
  "rp_rankIndex exampleParams = 0" "safePageSize exampleParams = 10"
  by (simp_all add: exampleParams_def safePageSize_def)

lemma ex_finish:
  "getRankings_finish noBuiltins exampleFetch exampleParams exampleRows =
     Inr (rankingsResult exampleParams [rawRowEntry, repairedEntry])"
  by (simp add: getRankings_finish_def ex_resolve ex_sort rankIndexOutside_def sliceTo_def
      ex_params)

text \<open>
  Claim C5. Every entry of the \<open>rankings\<close> array that \<open>getRankings\<close> returns, on either of
  its two returns, has a report code that is not empty and a fight id that is a finite
  number, and it is the entry that direct parsing of one of the raw rows yields, or the
  entry that the repair of one of the raw rows yields from the fight list of its report:
  a row for which neither yields an entry has no entry in the result.
\<close>

theorem getRankings_entries_known_pair:
  "(getRankings_finish B fetchFights params rows = Inr result \<or>
    getRankings_finishRelaxed B fetchFights params rows = Inr result) \<longrightarrow>
   (\<forall>e\<in>set (rankings result).
      reportCode e \<noteq> [] \<and> isFinite (fightID e) \<and>
      (\<exists>row\<in>set rows. spec_rowYields B fetchFights (rp_encounterID params) row e))"
proof (intro impI ballI)
  fix e
  assume r: "getRankings_finish B fetchFights params rows = Inr result \<or>
    getRankings_finishRelaxed B fetchFights params rows = Inr result"
    and e: "e \<in> set (rankings result)"
  from r have "set (rankings result) \<subseteq> set (resolveRankingRows B fetchFights params rows)"
    by (blast dest: getRankings_finish_subset getRankings_finishRelaxed_subset)
  with e have "e \<in> set (resolveRankingRows B fetchFights params rows)" by blast
  from resolveRankingRows_spec_rowYields [OF this] obtain row where
    row: "row \<in> set rows" and f: "spec_rowYields B fetchFights (rp_encounterID params) row e" by blast
  from spec_rowYields_known_pair [OF f] row f
  show "reportCode e \<noteq> [] \<and> isFinite (fightID e) \<and>
      (\<exists>row\<in>set rows. spec_rowYields B fetchFights (rp_encounterID params) row e)" by blast
qed

theorem getRankings_entries_known_pair_witness:
  "getRankings_finish noBuiltins exampleFetch exampleParams exampleRows =
     Inr (rankingsResult exampleParams [rawRowEntry, repairedEntry]) \<and>
   list_all (\<lambda>e. reportCode e \<noteq> [] \<and> isFinite (fightID e) \<and>
                (\<exists>row\<in>set exampleRows. spec_rowYields noBuiltins exampleFetch (rp_encounterID exampleParams) row e))
     (rankings (rankingsResult exampleParams [rawRowEntry, repairedEntry]))"
proof -
  have r: "getRankings_finish noBuiltins exampleFetch exampleParams exampleRows =
     Inr (rankingsResult exampleParams [rawRowEntry, repairedEntry]) \<or>
     getRankings_finishRelaxed noBuiltins exampleFetch exampleParams exampleRows =
     Inr (rankingsResult exampleParams [rawRowEntry, repairedEntry])"
    by (simp add: ex_finish)
  have "\<forall>e\<in>set (rankings (rankingsResult exampleParams [rawRowEntry, repairedEntry])).
      reportCode e \<noteq> [] \<and> isFinite (fightID e) \<and>
      (\<exists>row\<in>set exampleRows. spec_rowYields noBuiltins exampleFetch (rp_encounterID exampleParams) row e)"
    by (rule getRankings_entries_known_pair
        [of noBuiltins exampleFetch exampleParams exampleRows
            "rankingsResult exampleParams [rawRowEntry, repairedEntry]", THEN mp, OF r])
  then show ?thesis unfolding list_all_iff using ex_finish by (intro conjI)
qed


end
